theory Spec2Isabelle
  imports Complex_Main "HOL-Library.Log_Nat"
begin

section \<open>Double-precision arithmetic of the host language\<close>

text \<open>
  \<^verbatim>\<open>main.py\<close> computes the ad discount and the undo cost with Python floats, that is
  IEEE 754 binary64 with round-to-nearest, ties-to-even. A double is modelled by the
  rational number it denotes; every operation computes the exact rational result and
  rounds it to 53 significant bits. The exponent range is not modelled: the integers
  involved are SQLite 64-bit integers and the constants are 0.10, 0.25 and 1, so no
  operation leaves the normal range.
\<close>

definition round_half_even :: "rat \<Rightarrow> int" where
  "round_half_even q =
     (let f = \<lfloor>q\<rfloor>; r = q - of_int f
      in if r < 1 / 2 then f
         else if 1 / 2 < r then f + 1
         else if even f then f else f + 1)"

text \<open>\<open>ilog2 x\<close> is the binary exponent \<open>\<lfloor>log\<^sub>2 x\<rfloor>\<close> of a positive rational.\<close>

definition ilog2 :: "rat \<Rightarrow> int" where
  "ilog2 x =
     (case quotient_of x of
        (a, b) \<Rightarrow>
          (let k = bitlen a - bitlen b
           in if 2 powi k \<le> x then k else k - 1))"

definition float_round :: "rat \<Rightarrow> rat" where
  "float_round x =
     (if x = 0 then 0
      else let s = 2 powi (ilog2 \<bar>x\<bar> - 52)
           in sgn x * of_int (round_half_even (\<bar>x\<bar> / s)) * s)"

text \<open>Python's \<^verbatim>\<open>float(n)\<close>, the float operators and \<^verbatim>\<open>int(x)\<close> (truncation toward zero).\<close>

definition float_of_int :: "int \<Rightarrow> rat" where
  "float_of_int n = float_round (of_int n)"

definition fadd :: "rat \<Rightarrow> rat \<Rightarrow> rat" where
  "fadd a b = float_round (a + b)"

definition fsub :: "rat \<Rightarrow> rat \<Rightarrow> rat" where
  "fsub a b = float_round (a - b)"

definition fmul :: "rat \<Rightarrow> rat \<Rightarrow> rat" where
  "fmul a b = float_round (a * b)"

definition py_int :: "rat \<Rightarrow> int" where
  "py_int x = (if 0 \<le> x then \<lfloor>x\<rfloor> else \<lceil>x\<rceil>)"

section \<open>Constants\<close>

definition BOARD_SIZE :: int where "BOARD_SIZE = 1024"
definition BASE_COST_CREDITS :: int where "BASE_COST_CREDITS = 1000"
definition COST_INCREMENT_CREDITS :: int where "COST_INCREMENT_CREDITS = 1000"
definition INITIAL_CAP_CREDITS :: int where "INITIAL_CAP_CREDITS = 200000"
definition LOWER_CAP_CREDITS :: int where "LOWER_CAP_CREDITS = 150000"
definition CAP_TRIGGER_COUNT :: int where "CAP_TRIGGER_COUNT = 100"
definition INACTIVITY_THRESHOLD_SECONDS :: int where "INACTIVITY_THRESHOLD_SECONDS = 1800"
definition FREE_ELIGIBILITY_MAX_PAID :: int where "FREE_ELIGIBILITY_MAX_PAID = 500"
definition RATE_LIMIT_SECONDS :: int where "RATE_LIMIT_SECONDS = 1"
definition UNDO_WINDOW_SECONDS :: int where "UNDO_WINDOW_SECONDS = 300"
definition REPORT_FREEZE_THRESHOLD :: int where "REPORT_FREEZE_THRESHOLD = 2500"

text \<open>The float literals \<^verbatim>\<open>0.25\<close> and \<^verbatim>\<open>0.10\<close>: the doubles nearest to the decimals.\<close>

definition UNDO_BASE_PERCENT :: rat where "UNDO_BASE_PERCENT = float_round (25 / 100)"
definition UNDO_INCREMENT_PERCENT :: rat where "UNDO_INCREMENT_PERCENT = float_round (10 / 100)"
definition AD_OVERWRITE_DISCOUNT :: rat where "AD_OVERWRITE_DISCOUNT = float_round (10 / 100)"

section \<open>Time\<close>

text \<open>
  A point in time is a number of microseconds since the epoch, the resolution of
  \<^verbatim>\<open>datetime.now()\<close>. The clock is a parameter \<open>now\<close> of every operation; the
  process clock and the database clock are taken to read the same instant in the
  same zone. SQLite's \<^verbatim>\<open>datetime('now')\<close> has a resolution of one second.
\<close>

type_synonym time = int

definition seconds :: "int \<Rightarrow> int" where
  "seconds n = n * 1000000"

definition sqlite_now :: "time \<Rightarrow> time" where
  "sqlite_now now = (now div 1000000) * 1000000"

definition day_of :: "time \<Rightarrow> int" where
  "day_of t = t div 86400000000"

text \<open>
  The stored timestamps are TEXT of the form \<^verbatim>\<open>YYYY-MM-DD HH:MM:SS\<close>, and the
  queries that count the rows of a week compare them with a parameter produced by
  \<^verbatim>\<open>datetime.isoformat()\<close>, which has the form \<^verbatim>\<open>YYYY-MM-DDTHH:MM:SS\<close>
  (with \<^verbatim>\<open>.ffffff\<close> appended when the microseconds are not zero). SQLite
  compares two texts byte by byte. The first ten characters are the calendar date; when
  the dates are equal the eleventh character decides, and the space of the stored text
  is smaller than the letter T of the parameter. So
  \<^verbatim>\<open>stored >= param\<close> holds exactly when the stored date is later than the
  parameter's date, and \<^verbatim>\<open>stored < param\<close> exactly when the stored date is
  not later than the parameter's date.
\<close>

definition sql_text_ge_iso :: "time \<Rightarrow> time \<Rightarrow> bool" where
  "sql_text_ge_iso stored param = (day_of param < day_of stored)"

definition sql_text_lt_iso :: "time \<Rightarrow> time \<Rightarrow> bool" where
  "sql_text_lt_iso stored param = (day_of stored \<le> day_of param)"

section \<open>Tables\<close>

text \<open>
  The columns that no modelled operation reads (\<^verbatim>\<open>username\<close>,
  \<^verbatim>\<open>last_reward_month\<close>, \<^verbatim>\<open>created_at\<close>, \<^verbatim>\<open>global_state.updated_at\<close>)
  are left out.
\<close>

record user =
  credits :: int
  lifetime_paid_placements :: int
  undo_escalation_count :: int
  ad_violation_count :: int

record pixel =
  color :: string
  cost_level :: int
  owner_id :: "int option"
  is_ad :: bool
  updated_at :: time

record placement =
  pl_user_id :: int
  pl_x :: int
  pl_y :: int
  pl_color :: string
  cost :: int
  was_free :: bool
  pl_is_ad :: bool
  can_undo :: bool
  previous_color :: "string option"
  previous_owner_id :: "int option"
  placed_at :: time

record report =
  reporter_user_id :: int
  pixel_x :: int
  pixel_y :: int
  reason :: string
  reported_at :: time

record snapshot_pixel =
  snap_x :: int
  snap_y :: int
  snap_color :: string
  snap_owner_id :: "int option"
  snap_is_ad :: bool

record archive =
  ar_week_start :: time
  ar_week_end :: time
  snapshot_data :: "snapshot_pixel list"
  total_placements :: nat
  unique_contributors :: nat

text \<open>
  The database and the in-memory rate-limit dictionary. \<open>pixels\<close> is keyed by the
  coordinate pair; a placement's \<^verbatim>\<open>id\<close> (AUTOINCREMENT, rows are never deleted)
  is its position in \<open>placements\<close>, counted from 1.
\<close>

record state =
  users :: "int \<rightharpoonup> user"
  pixels :: "((int \<times> int) \<times> pixel) list"
  placements :: "placement list"
  reports :: "report list"
  archives :: "archive list"
  week_start :: time
  last_placement :: time
  current_cap :: int
  board_frozen :: bool
  user_last_placement :: "int \<rightharpoonup> time"

datatype error =
    BoardFrozen
  | UserNotFound
  | RateLimited
  | InsufficientCredits
  | PlacementNotFound
  | NotYourPlacement
  | CannotUndo
  | UndoWindowExpired
  | InvalidCoordinates
  | InternalError

text \<open>The status code of the \<^verbatim>\<open>HTTPException\<close> raised for each rejection.\<close>

fun status_code :: "error \<Rightarrow> nat" where
  "status_code BoardFrozen = 403"
| "status_code UserNotFound = 404"
| "status_code RateLimited = 429"
| "status_code InsufficientCredits = 402"
| "status_code PlacementNotFound = 404"
| "status_code NotYourPlacement = 403"
| "status_code CannotUndo = 400"
| "status_code UndoWindowExpired = 400"
| "status_code InvalidCoordinates = 400"
| "status_code InternalError = 500"

text \<open>\<^verbatim>\<open>UPDATE users SET ... WHERE id = ?\<close>: no row, no change.\<close>

definition update_user :: "int \<Rightarrow> (user \<Rightarrow> user) \<Rightarrow> (int \<rightharpoonup> user) \<Rightarrow> (int \<rightharpoonup> user)" where
  "update_user uid f us = (case us uid of None \<Rightarrow> us | Some u \<Rightarrow> us(uid \<mapsto> f u))"

text \<open>The pixel table as an association list: lookup, upsert, update in place, delete.\<close>

fun upsert_pixel :: "(int \<times> int) \<Rightarrow> pixel \<Rightarrow> ((int \<times> int) \<times> pixel) list \<Rightarrow> ((int \<times> int) \<times> pixel) list" where
  "upsert_pixel k v [] = [(k, v)]"
| "upsert_pixel k v ((k', v') # ps) = (if k' = k then (k, v) # ps else (k', v') # upsert_pixel k v ps)"

fun update_pixel :: "(int \<times> int) \<Rightarrow> (pixel \<Rightarrow> pixel) \<Rightarrow> ((int \<times> int) \<times> pixel) list \<Rightarrow> ((int \<times> int) \<times> pixel) list" where
  "update_pixel k f [] = []"
| "update_pixel k f ((k', v') # ps) = (if k' = k then (k', f v') # ps else (k', v') # update_pixel k f ps)"

definition delete_pixel :: "(int \<times> int) \<Rightarrow> ((int \<times> int) \<times> pixel) list \<Rightarrow> ((int \<times> int) \<times> pixel) list" where
  "delete_pixel k ps = filter (\<lambda>kv. fst kv \<noteq> k) ps"

definition get_pixel :: "state \<Rightarrow> int \<Rightarrow> int \<Rightarrow> pixel option" where
  "get_pixel s x y = map_of (pixels s) (x, y)"

definition get_placement :: "state \<Rightarrow> int \<Rightarrow> placement option" where
  "get_placement s placement_id =
     (if 1 \<le> placement_id \<and> placement_id \<le> int (length (placements s))
      then Some (placements s ! nat (placement_id - 1)) else None)"

section \<open>Helper functions of \<^verbatim>\<open>main.py\<close>\<close>

definition count_week_reports :: "state \<Rightarrow> int" where
  "count_week_reports s =
     int (length (filter (\<lambda>r. sql_text_ge_iso (reported_at r) (week_start s)) (reports s)))"

definition create_archive_snapshot :: "state \<Rightarrow> time \<Rightarrow> time \<Rightarrow> state" where
  "create_archive_snapshot s week_start' week_end =
     (let snapshot = map (\<lambda>(k, p). \<lparr>snap_x = fst k, snap_y = snd k, snap_color = color p,
                                    snap_owner_id = owner_id p, snap_is_ad = is_ad p\<rparr>) (pixels s);
          in_week = filter (\<lambda>p. sql_text_ge_iso (placed_at p) week_start'
                               \<and> sql_text_lt_iso (placed_at p) week_end) (placements s)
      in s\<lparr>archives := archives s @
             [\<lparr>ar_week_start = week_start', ar_week_end = week_end, snapshot_data = snapshot,
               total_placements = length in_week,
               unique_contributors = length (remdups (map pl_user_id in_week))\<rparr>]\<rparr>)"

definition check_and_reset_week :: "state \<Rightarrow> time \<Rightarrow> bool \<times> state" where
  "check_and_reset_week s now =
     (if seconds (7 * 86400) \<le> now - week_start s then
        let s1 = create_archive_snapshot s (week_start s) now
        in (True,
            s1\<lparr>pixels := map (\<lambda>(k, p). (k, p\<lparr>cost_level := 0\<rparr>)) (pixels s1),
               users := (\<lambda>uid. map_option (\<lambda>u. u\<lparr>undo_escalation_count := 0\<rparr>) (users s1 uid)),
               week_start := sqlite_now now,
               current_cap := INITIAL_CAP_CREDITS,
               board_frozen := False\<rparr>)
      else (False, s))"

text \<open>
  Of \<^verbatim>\<open>is_free_placement_eligible\<close> only the two tests that decide the result
  are modelled; the placement counts the function also reads are never used.
\<close>

definition is_free_placement_eligible :: "state \<Rightarrow> int \<Rightarrow> time \<Rightarrow> bool \<times> string option" where
  "is_free_placement_eligible s user_id now =
     (let inactive = now - last_placement s;
          qualifies = (case users s user_id of
                         None \<Rightarrow> False
                       | Some u \<Rightarrow> lifetime_paid_placements u \<le> FREE_ELIGIBILITY_MAX_PAID);
          time_remaining = (week_start s + seconds (7 * 86400)) - now
      in if seconds INACTIVITY_THRESHOLD_SECONDS \<le> inactive \<and> qualifies
         then (True, Some ''inactivity'')
         else if time_remaining < seconds 21600 \<and> qualifies
         then (True, Some ''end_of_week'')
         else (False, None))"

definition calculate_pixel_cost :: "state \<Rightarrow> int \<Rightarrow> int \<Rightarrow> int" where
  "calculate_pixel_cost s x y =
     (let row = get_pixel s x y;
          cost_level' = (case row of Some p \<Rightarrow> cost_level p | None \<Rightarrow> 0);
          is_ad' = (case row of Some p \<Rightarrow> is_ad p | None \<Rightarrow> False);
          base_cost = BASE_COST_CREDITS;
          cost0 = base_cost + (cost_level' * COST_INCREMENT_CREDITS) div 1000;
          cost1 = (if is_ad'
                   then py_int (fmul (float_of_int cost0) (fsub (float_of_int 1) AD_OVERWRITE_DISCOUNT))
                   else cost0)
      in min cost1 (current_cap s))"

definition update_dynamic_cap :: "state \<Rightarrow> state" where
  "update_dynamic_cap s =
     (if current_cap s = INITIAL_CAP_CREDITS then
        let count = int (length (filter
                      (\<lambda>kp. current_cap s div COST_INCREMENT_CREDITS * 1000 \<le> cost_level (snd kp))
                      (pixels s)))
        in if CAP_TRIGGER_COUNT \<le> count then s\<lparr>current_cap := LOWER_CAP_CREDITS\<rparr> else s
      else s)"

section \<open>Placing a pixel\<close>

record place_pixel_request =
  req_user_id :: int
  req_x :: int
  req_y :: int
  req_color :: string
  req_is_ad :: bool

record place_pixel_response =
  resp_cost :: int
  resp_was_free :: bool
  new_balance :: int
  message :: string
  placement_id :: int

text \<open>
  The second transaction of \<^verbatim>\<open>place_pixel\<close>: eligibility, cost, the balance
  check, and the writes. A rejection is raised before the first write, so it leaves the
  database as it was. \<^verbatim>\<open>cursor.fetchone()[0]\<close> on a missing user row would
  raise a \<^verbatim>\<open>TypeError\<close>.
\<close>

definition place_pixel_commit ::
  "state \<Rightarrow> place_pixel_request \<Rightarrow> time \<Rightarrow> (error + place_pixel_response) \<times> state" where
  "place_pixel_commit s request now =
     (case users s (req_user_id request) of
        None \<Rightarrow> (Inl InternalError, s)
      | Some u \<Rightarrow>
          (let is_free = fst (is_free_placement_eligible s (req_user_id request) now);
               free_reason = snd (is_free_placement_eligible s (req_user_id request) now);
               cost' = (if is_free then 0 else calculate_pixel_cost s (req_x request) (req_y request));
               user_credits = credits u
           in if \<not> is_free \<and> user_credits < cost' then (Inl InsufficientCredits, s)
              else
                (let existing_pixel = get_pixel s (req_x request) (req_y request);
                     previous_color' = map_option color existing_pixel;
                     previous_owner = (case existing_pixel of Some p \<Rightarrow> owner_id p | None \<Rightarrow> None);
                     previous_is_ad = (case existing_pixel of Some p \<Rightarrow> is_ad p | None \<Rightarrow> False);
                     new_cost_level = (case existing_pixel of Some p \<Rightarrow> cost_level p | None \<Rightarrow> 0)
                                        + COST_INCREMENT_CREDITS;
                     users1 = (if previous_is_ad \<and> \<not> req_is_ad request
                               then update_user (req_user_id request)
                                      (\<lambda>v. v\<lparr>ad_violation_count := ad_violation_count v + 1\<rparr>) (users s)
                               else users s);
                     users2 = (if \<not> is_free
                               then update_user (req_user_id request)
                                      (\<lambda>v. v\<lparr>credits := credits v - cost',
                                             lifetime_paid_placements := lifetime_paid_placements v + 1\<rparr>)
                                      users1
                               else users1);
                     new_balance' = (if \<not> is_free then user_credits - cost' else user_credits);
                     pixels' = upsert_pixel (req_x request, req_y request)
                                 \<lparr>color = req_color request, cost_level = new_cost_level,
                                  owner_id = Some (req_user_id request), is_ad = req_is_ad request,
                                  updated_at = sqlite_now now\<rparr> (pixels s);
                     placements' = placements s @
                                 [\<lparr>pl_user_id = req_user_id request, pl_x = req_x request,
                                   pl_y = req_y request, pl_color = req_color request, cost = cost',
                                   was_free = is_free, pl_is_ad = req_is_ad request, can_undo = True,
                                   previous_color = previous_color', previous_owner_id = previous_owner,
                                   placed_at = sqlite_now now\<rparr>];
                     placement_id' = int (length placements');
                     s' = update_dynamic_cap
                            (s\<lparr>users := users2, pixels := pixels', placements := placements',
                               last_placement := sqlite_now now\<rparr>);
                     message' = ''Pixel placed'' @
                                  (if is_free
                                   then '' (free: '' @ (case free_reason of Some r \<Rightarrow> r | None \<Rightarrow> ''None'') @ '')''
                                   else [])
                 in (Inr \<lparr>resp_cost = cost', resp_was_free = is_free, new_balance = new_balance',
                          message = message', placement_id = placement_id'\<rparr>, s'))))"

text \<open>
  \<^verbatim>\<open>place_pixel\<close>: the freeze check, the lazy week reset (committed by
  \<^verbatim>\<open>check_and_reset_week\<close> itself, so it survives a later rejection), the user
  lookup, the in-memory rate limit (recorded before the second transaction runs), and
  then the second transaction.
\<close>

definition place_pixel ::
  "state \<Rightarrow> place_pixel_request \<Rightarrow> time \<Rightarrow> (error + place_pixel_response) \<times> state" where
  "place_pixel s request now =
     (if board_frozen s then (Inl BoardFrozen, s)
      else
        (let s1 = snd (check_and_reset_week s now)
         in case users s1 (req_user_id request) of
              None \<Rightarrow> (Inl UserNotFound, s1)
            | Some u \<Rightarrow>
                (let last_time = (case user_last_placement s1 (req_user_id request) of
                                    None \<Rightarrow> 0 | Some t \<Rightarrow> t)
                 in if now - last_time < seconds RATE_LIMIT_SECONDS then (Inl RateLimited, s1)
                    else place_pixel_commit
                           (s1\<lparr>user_last_placement :=
                                 (user_last_placement s1)(req_user_id request \<mapsto> now)\<rparr>)
                           request now)))"

section \<open>Undoing a placement\<close>

record undo_response =
  undo_cost :: int
  undo_new_balance :: int

text \<open>
  \<^verbatim>\<open>int(original_cost * (UNDO_BASE_PERCENT + (undo_count * UNDO_INCREMENT_PERCENT)))\<close>,
  every operation in double precision.
\<close>

definition undo_fraction :: "int \<Rightarrow> rat" where
  "undo_fraction undo_count =
     fadd UNDO_BASE_PERCENT (fmul (float_of_int undo_count) UNDO_INCREMENT_PERCENT)"

definition calculate_undo_cost :: "int \<Rightarrow> int \<Rightarrow> int" where
  "calculate_undo_cost original_cost undo_count =
     py_int (fmul (float_of_int original_cost) (undo_fraction undo_count))"

text \<open>Python's truth value of \<^verbatim>\<open>previous_color\<close>: neither \<^verbatim>\<open>None\<close> nor empty.\<close>

definition truthy :: "string option \<Rightarrow> bool" where
  "truthy c = (case c of None \<Rightarrow> False | Some t \<Rightarrow> t \<noteq> [])"

definition undo_placement ::
  "state \<Rightarrow> int \<Rightarrow> int \<Rightarrow> time \<Rightarrow> (error + undo_response) \<times> state" where
  "undo_placement s placement_id' user_id now =
     (if board_frozen s then (Inl BoardFrozen, s)
      else case get_placement s placement_id' of
        None \<Rightarrow> (Inl PlacementNotFound, s)
      | Some pl \<Rightarrow>
          if pl_user_id pl \<noteq> user_id then (Inl NotYourPlacement, s)
          else if \<not> can_undo pl then (Inl CannotUndo, s)
          else if seconds UNDO_WINDOW_SECONDS < now - placed_at pl then (Inl UndoWindowExpired, s)
          else case users s user_id of
            None \<Rightarrow> (Inl UserNotFound, s)
          | Some u \<Rightarrow>
              (let user_credits = credits u;
                   undo_count = undo_escalation_count u;
                   original_cost = cost pl;
                   undo_cost' = calculate_undo_cost original_cost undo_count
               in if user_credits < undo_cost' then (Inl InsufficientCredits, s)
                  else
                    (let users' = update_user user_id
                                    (\<lambda>v. v\<lparr>credits := credits v - undo_cost',
                                           undo_escalation_count := undo_escalation_count v + 1\<rparr>)
                                    (users s);
                         new_balance' = user_credits - undo_cost';
                         pixels' = (if truthy (previous_color pl)
                                    then update_pixel (pl_x pl, pl_y pl)
                                           (\<lambda>p. p\<lparr>color := the (previous_color pl),
                                                  owner_id := previous_owner_id pl,
                                                  updated_at := sqlite_now now\<rparr>) (pixels s)
                                    else delete_pixel (pl_x pl, pl_y pl) (pixels s));
                         placements' = (placements s)
                                         [nat (placement_id' - 1) := pl\<lparr>can_undo := False\<rparr>]
                     in (Inr \<lparr>undo_cost = undo_cost', undo_new_balance = new_balance'\<rparr>,
                         s\<lparr>users := users', pixels := pixels', placements := placements'\<rparr>))))"

section \<open>Reporting a pixel\<close>

record report_response =
  resp_board_frozen :: bool
  report_count :: int

definition report_pixel ::
  "state \<Rightarrow> int \<Rightarrow> int \<Rightarrow> int \<Rightarrow> string \<Rightarrow> time \<Rightarrow> (error + report_response) \<times> state" where
  "report_pixel s user_id x y reason' now =
     (if \<not> (0 \<le> x \<and> x < BOARD_SIZE \<and> 0 \<le> y \<and> y < BOARD_SIZE) then (Inl InvalidCoordinates, s)
      else case users s user_id of
        None \<Rightarrow> (Inl UserNotFound, s)
      | Some u \<Rightarrow>
          (let s1 = s\<lparr>reports := reports s @
                        [\<lparr>reporter_user_id = user_id, pixel_x = x, pixel_y = y,
                          reason = reason', reported_at = sqlite_now now\<rparr>]\<rparr>;
               report_count' = count_week_reports s1
           in if REPORT_FREEZE_THRESHOLD \<le> report_count' \<and> \<not> board_frozen s1
              then (Inr \<lparr>resp_board_frozen = True, report_count = report_count'\<rparr>,
                    s1\<lparr>board_frozen := True\<rparr>)
              else (Inr \<lparr>resp_board_frozen = False, report_count = report_count'\<rparr>, s1)))"

section \<open>Reading a cell, and the rules as the specification words them\<close>

definition cell_level :: "state \<Rightarrow> int \<Rightarrow> int \<Rightarrow> int" where
  "cell_level s x y = (case get_pixel s x y of Some p \<Rightarrow> cost_level p | None \<Rightarrow> 0)"

definition cell_is_ad :: "state \<Rightarrow> int \<Rightarrow> int \<Rightarrow> bool" where
  "cell_is_ad s x y = (case get_pixel s x y of Some p \<Rightarrow> is_ad p | None \<Rightarrow> False)"

text \<open>
  The price rule in exact arithmetic: base cost 1000 plus the truncation of
  \<open>L \<times> 1000 / 1000\<close>; for an ad cell times 0.9, truncated toward zero; then the
  minimum with the cap.
\<close>

definition spec_pixel_cost :: "int \<Rightarrow> bool \<Rightarrow> int \<Rightarrow> int" where
  "spec_pixel_cost L A C =
     (let c0 = 1000 + py_int (of_int L * 1000 / 1000);
          c1 = (if A then py_int (of_int c0 * (9 / 10)) else c0)
      in min c1 C)"

text \<open>
  The free-placement rule as the specification words it: the inactivity trigger needs
  the time since the last placement to exceed 1800 seconds.
\<close>

definition spec_free_placement :: "state \<Rightarrow> int \<Rightarrow> time \<Rightarrow> bool \<times> string option" where
  "spec_free_placement s user_id now =
     (let ceiling_holds = (case users s user_id of
                             None \<Rightarrow> False
                           | Some u \<Rightarrow> lifetime_paid_placements u \<le> 500)
      in if seconds 1800 < now - last_placement s \<and> ceiling_holds
         then (True, Some ''inactivity'')
         else if (week_start s + seconds (7 * 86400)) - now < seconds 21600 \<and> ceiling_holds
         then (True, Some ''end_of_week'')
         else (False, None))"


text \<open>
  The undo cost in exact arithmetic:
  \<open>\<lfloor>original cost \<times> (0.25 + undo_escalation_count \<times> 0.10)\<rfloor>\<close>.
\<close>

definition spec_undo_cost :: "int \<Rightarrow> int \<Rightarrow> int" where
  "spec_undo_cost original_cost undo_count =
     \<lfloor>(of_int original_cost :: rat) * (25 / 100 + of_int undo_count * (10 / 100))\<rfloor>"

section \<open>The values a committed placement writes\<close>

text \<open>
  Names for the response, the user row, the cell and the log record that the second
  transaction of \<^verbatim>\<open>place_pixel\<close> produces when it commits; they abbreviate the
  corresponding expressions of \<open>place_pixel_commit\<close>.
\<close>

definition committed_response :: "state \<Rightarrow> place_pixel_request \<Rightarrow> time \<Rightarrow> user \<Rightarrow> place_pixel_response" where
  "committed_response s request now u =
     (let is_free = fst (is_free_placement_eligible s (req_user_id request) now);
          cost' = (if is_free then 0 else calculate_pixel_cost s (req_x request) (req_y request))
      in \<lparr>resp_cost = cost', resp_was_free = is_free, new_balance = credits u - cost',
          message = ''Pixel placed'' @
             (if is_free
              then '' (free: '' @ (case snd (is_free_placement_eligible s (req_user_id request) now)
                                   of Some r \<Rightarrow> r | None \<Rightarrow> ''None'') @ '')''
              else []),
          placement_id = int (length (placements s)) + 1\<rparr>)"

definition committed_user :: "state \<Rightarrow> place_pixel_request \<Rightarrow> time \<Rightarrow> user \<Rightarrow> user" where
  "committed_user s request now u =
     (let is_free = fst (is_free_placement_eligible s (req_user_id request) now);
          cost' = (if is_free then 0 else calculate_pixel_cost s (req_x request) (req_y request));
          u1 = (if cell_is_ad s (req_x request) (req_y request) \<and> \<not> req_is_ad request
                then u\<lparr>ad_violation_count := ad_violation_count u + 1\<rparr> else u)
      in if \<not> is_free
         then u1\<lparr>credits := credits u1 - cost',
                 lifetime_paid_placements := lifetime_paid_placements u1 + 1\<rparr>
         else u1)"

definition committed_pixel :: "state \<Rightarrow> place_pixel_request \<Rightarrow> time \<Rightarrow> pixel" where
  "committed_pixel s request now =
     \<lparr>color = req_color request,
      cost_level = cell_level s (req_x request) (req_y request) + COST_INCREMENT_CREDITS,
      owner_id = Some (req_user_id request), is_ad = req_is_ad request,
      updated_at = sqlite_now now\<rparr>"

definition committed_record :: "state \<Rightarrow> place_pixel_request \<Rightarrow> time \<Rightarrow> placement" where
  "committed_record s request now =
     (let is_free = fst (is_free_placement_eligible s (req_user_id request) now);
          cost' = (if is_free then 0 else calculate_pixel_cost s (req_x request) (req_y request))
      in \<lparr>pl_user_id = req_user_id request, pl_x = req_x request, pl_y = req_y request,
          pl_color = req_color request, cost = cost', was_free = is_free,
          pl_is_ad = req_is_ad request, can_undo = True,
          previous_color = map_option color (get_pixel s (req_x request) (req_y request)),
          previous_owner_id = (case get_pixel s (req_x request) (req_y request) of
                                 Some p \<Rightarrow> owner_id p | None \<Rightarrow> None),
          placed_at = sqlite_now now\<rparr>)"


section \<open>Runs of placement attempts\<close>

text \<open>A run of placement attempts, each with the time at which it is made.\<close>

fun place_all :: "state \<Rightarrow> (place_pixel_request \<times> time) list \<Rightarrow> state" where
  "place_all s [] = s"
| "place_all s ((request, now) # rest) = place_all (snd (place_pixel s request now)) rest"

text \<open>The number of attempts of a run that commit a placement on the cell \<open>(x, y)\<close>.\<close>

fun committed_on :: "state \<Rightarrow> (place_pixel_request \<times> time) list \<Rightarrow> int \<Rightarrow> int \<Rightarrow> nat" where
  "committed_on s [] x y = 0"
| "committed_on s ((request, now) # rest) x y =
     (case fst (place_pixel s request now) of
        Inr r \<Rightarrow> (if req_x request = x \<and> req_y request = y then 1 else 0)
      | Inl e \<Rightarrow> 0)
     + committed_on (snd (place_pixel s request now)) rest x y"

section \<open>Example states\<close>

definition example_user :: user where
  "example_user =
     \<lparr>credits = 5000, lifetime_paid_placements = 0, undo_escalation_count = 0,
      ad_violation_count = 0\<rparr>"

text \<open>
  One user; an ad cell at \<open>(0, 0)\<close> and a plain cell at \<open>(2, 2)\<close>, both owned by
  somebody else; the week started at time 0 and the last placement was a day later.
\<close>

definition example_state :: state where
  "example_state =
     \<lparr>users = [1 \<mapsto> example_user],
      pixels = [((0, 0), \<lparr>color = ''#ff0000'', cost_level = 3000, owner_id = Some 2,
                          is_ad = True, updated_at = 0\<rparr>),
                ((2, 2), \<lparr>color = ''#00ff00'', cost_level = 1000, owner_id = Some 2,
                          is_ad = False, updated_at = 0\<rparr>)],
      placements = [], reports = [], archives = [],
      week_start = 0, last_placement = seconds 86400,
      current_cap = INITIAL_CAP_CREDITS, board_frozen = False,
      user_last_placement = Map.empty\<rparr>"

definition example_placement :: placement where
  "example_placement =
     \<lparr>pl_user_id = 1, pl_x = 1, pl_y = 1, pl_color = ''#0000ff'', cost = 0, was_free = True,
      pl_is_ad = False, can_undo = True, previous_color = None, previous_owner_id = None,
      placed_at = seconds 86400\<rparr>"



definition example_placed :: state where
  "example_placed =
     example_state
       \<lparr>users := [1 \<mapsto> example_user\<lparr>credits := 4000, lifetime_paid_placements := 1\<rparr>],
        pixels := pixels example_state @
                    [((1, 1), \<lparr>color = ''#0000ff'', cost_level = 1000, owner_id = Some 1,
                               is_ad = False, updated_at = seconds 86460\<rparr>)],
        placements := [\<lparr>pl_user_id = 1, pl_x = 1, pl_y = 1, pl_color = ''#0000ff'', cost = 1000,
                        was_free = False, pl_is_ad = False, can_undo = True,
                        previous_color = None, previous_owner_id = None,
                        placed_at = seconds 86460\<rparr>],
        last_placement := seconds 86460,
        user_last_placement := [1 \<mapsto> seconds 86460]\<rparr>"

text \<open>
  A paid placement by user 1 on the occupied cell \<open>(2, 2)\<close>, the state it leaves, and the
  state after user 1 has undone it ten seconds later.
\<close>

definition example_overwrite :: place_pixel_request where
  "example_overwrite =
     \<lparr>req_user_id = 1, req_x = 2, req_y = 2, req_color = ''#0000ff'', req_is_ad = False\<rparr>"

definition example_overwritten :: state where
  "example_overwritten =
     example_state
       \<lparr>users := [1 \<mapsto> example_user\<lparr>credits := 3000, lifetime_paid_placements := 1\<rparr>],
        pixels := [((0, 0), \<lparr>color = ''#ff0000'', cost_level = 3000, owner_id = Some 2,
                            is_ad = True, updated_at = 0\<rparr>),
                   ((2, 2), \<lparr>color = ''#0000ff'', cost_level = 2000, owner_id = Some 1,
                            is_ad = False, updated_at = seconds 86460\<rparr>)],
        placements := [\<lparr>pl_user_id = 1, pl_x = 2, pl_y = 2, pl_color = ''#0000ff'', cost = 2000,
                        was_free = False, pl_is_ad = False, can_undo = True,
                        previous_color = Some ''#00ff00'', previous_owner_id = Some 2,
                        placed_at = seconds 86460\<rparr>],
        last_placement := seconds 86460,
        user_last_placement := [1 \<mapsto> seconds 86460]\<rparr>"

definition example_restored :: state where
  "example_restored =
     example_overwritten
       \<lparr>users := [1 \<mapsto> example_user\<lparr>credits := 2500, lifetime_paid_placements := 1,
                                     undo_escalation_count := 1\<rparr>],
        pixels := [((0, 0), \<lparr>color = ''#ff0000'', cost_level = 3000, owner_id = Some 2,
                            is_ad = True, updated_at = 0\<rparr>),
                   ((2, 2), \<lparr>color = ''#00ff00'', cost_level = 2000, owner_id = Some 2,
                            is_ad = False, updated_at = seconds 86470\<rparr>)],
        placements := [\<lparr>pl_user_id = 1, pl_x = 2, pl_y = 2, pl_color = ''#0000ff'', cost = 2000,
                        was_free = False, pl_is_ad = False, can_undo = False,
                        previous_color = Some ''#00ff00'', previous_owner_id = Some 2,
                        placed_at = seconds 86460\<rparr>]\<rparr>"

text \<open>
  A paid placement of user 1 on the empty cell \<open>(3, 3)\<close>, and the state in which user 1
  has made the free placement on \<open>(1, 1)\<close> and, a minute later, this paid one.
\<close>

definition example_paid_placement :: placement where
  "example_paid_placement =
     \<lparr>pl_user_id = 1, pl_x = 3, pl_y = 3, pl_color = ''#0000ff'', cost = 1000, was_free = False,
      pl_is_ad = False, can_undo = True, previous_color = None, previous_owner_id = None,
      placed_at = seconds 86460\<rparr>"

definition example_two_records :: state where
  "example_two_records =
     example_state
       \<lparr>users := [1 \<mapsto> example_user\<lparr>credits := 4000, lifetime_paid_placements := 1\<rparr>],
        pixels := pixels example_state @
                    [((1, 1), \<lparr>color = ''#0000ff'', cost_level = 1000, owner_id = Some 1,
                               is_ad = False, updated_at = seconds 86400\<rparr>),
                     ((3, 3), \<lparr>color = ''#0000ff'', cost_level = 1000, owner_id = Some 1,
                               is_ad = False, updated_at = seconds 86460\<rparr>)],
        placements := [example_placement, example_paid_placement],
        last_placement := seconds 86460,
        user_last_placement := [1 \<mapsto> seconds 86460]\<rparr>"

text \<open>The same state after the free placement has been undone.\<close>

definition example_free_undone :: state where
  "example_free_undone =
     example_two_records
       \<lparr>users := [1 \<mapsto> example_user\<lparr>credits := 4000, lifetime_paid_placements := 1,
                                     undo_escalation_count := 1\<rparr>],
        pixels := pixels example_state @
                    [((3, 3), \<lparr>color = ''#0000ff'', cost_level = 1000, owner_id = Some 1,
                               is_ad = False, updated_at = seconds 86460\<rparr>)],
        placements := [example_placement\<lparr>can_undo := False\<rparr>, example_paid_placement]\<rparr>"

text \<open>A report filed one hour after the start of the example week.\<close>

definition example_report :: report where
  "example_report =
     \<lparr>reporter_user_id = 1, pixel_x = 0, pixel_y = 0, reason = [], reported_at = seconds 3600\<rparr>"

section \<open>Properties of the rounding\<close>

lemma bitlen_powi_bounds:
  assumes "0 < (a::int)"
  shows "(2::rat) powi (bitlen a - 1) \<le> of_int a" and "of_int a < (2::rat) powi (bitlen a)"
proof -
  from bitlen_bounds[OF assms] have lo: "2 ^ nat (bitlen a - 1) \<le> a" and hi: "a < 2 ^ nat (bitlen a)"
    by auto
  have pos: "1 \<le> bitlen a" using assms by (simp add: bitlen_def floorlog_def)
  have "(of_int (2 ^ nat (bitlen a - 1)) :: rat) \<le> of_int a" using lo by (simp only: of_int_le_iff)
  then show "(2::rat) powi (bitlen a - 1) \<le> of_int a"
    using pos by (simp add: power_int_def)
  have "(of_int a :: rat) < of_int (2 ^ nat (bitlen a))" using hi by (simp only: of_int_less_iff)
  then show "of_int a < (2::rat) powi (bitlen a)"
    using pos by (simp add: power_int_def)
qed

lemma ilog2_bounds:
  assumes "0 < x"
  shows "2 powi (ilog2 x) \<le> x" and "x < 2 powi (ilog2 x + 1)"
proof -
  obtain a b where q: "quotient_of x = (a, b)" by (cases "quotient_of x")
  have b: "0 < b" using q by (rule quotient_of_denom_pos)
  have x: "x = of_int a / of_int b" using q by (rule quotient_of_div)
  have a: "0 < a" using assms b x by (simp add: zero_less_divide_iff)
  define k where "k = bitlen a - bitlen b"
  note A = bitlen_powi_bounds[OF a] and B = bitlen_powi_bounds[OF b]
  have bpos: "(0::rat) < of_int b" using b by simp
  have up: "x < 2 powi (k + 1)"
  proof -
    have "of_int a < (2::rat) powi (bitlen a)" by (rule A)
    also have "\<dots> = 2 powi (k + 1) * 2 powi (bitlen b - 1)"
      by (simp add: k_def flip: power_int_add)
    also have "\<dots> \<le> 2 powi (k + 1) * of_int b"
      using B(1) by (intro mult_left_mono) auto
    finally show ?thesis using bpos by (simp add: x pos_divide_less_eq)
  qed
  have lo: "2 powi (k - 1) < x"
  proof -
    have "(2::rat) powi (k - 1) * of_int b < 2 powi (k - 1) * 2 powi (bitlen b)"
      using B(2) by (intro mult_strict_left_mono) auto
    also have "\<dots> = 2 powi (bitlen a - 1)"
      by (simp add: k_def flip: power_int_add)
    also have "\<dots> \<le> of_int a" by (rule A)
    finally show ?thesis using bpos by (simp add: x pos_less_divide_eq)
  qed
  have il: "ilog2 x = (if 2 powi k \<le> x then k else k - 1)"
    by (simp add: ilog2_def q k_def Let_def)
  show "2 powi (ilog2 x) \<le> x" using lo by (auto simp: il)
  show "x < 2 powi (ilog2 x + 1)" using up by (auto simp: il)
qed

lemma round_half_even_of_int [simp]: "round_half_even (of_int n) = n"
  by (simp add: round_half_even_def)

lemma round_half_even_range: "\<lfloor>q\<rfloor> \<le> round_half_even q \<and> round_half_even q \<le> \<lfloor>q\<rfloor> + 1"
  by (simp add: round_half_even_def Let_def)

lemma round_half_even_mono:
  assumes "q \<le> r"
  shows "round_half_even q \<le> round_half_even r"
proof (cases "\<lfloor>q\<rfloor> = \<lfloor>r\<rfloor>")
  case True
  then show ?thesis using assms by (auto simp: round_half_even_def Let_def)
next
  case False
  have "\<lfloor>q\<rfloor> \<le> \<lfloor>r\<rfloor>" using assms by (rule floor_mono)
  with False have "\<lfloor>q\<rfloor> + 1 \<le> \<lfloor>r\<rfloor>" by simp
  then show ?thesis
    using round_half_even_range[of q] round_half_even_range[of r] by linarith
qed

lemma powi2_less_imp_less:
  assumes "(2::rat) powi a < 2 powi b"
  shows "a < b"
proof (rule ccontr)
  assume "\<not> a < b"
  then have "b \<le> a" by simp
  then have "(2::rat) powi b \<le> 2 powi a" by (intro power_int_increasing) auto
  with assms show False by simp
qed

lemma ilog2_unique:
  assumes "0 < x" "2 powi e \<le> x" "x < 2 powi (e + 1)"
  shows "ilog2 x = e"
proof -
  note B = ilog2_bounds[OF assms(1)]
  have "(2::rat) powi e < 2 powi (ilog2 x + 1)" using assms(2) B(2) by simp
  then have 1: "e < ilog2 x + 1" by (rule powi2_less_imp_less)
  have "(2::rat) powi (ilog2 x) < 2 powi (e + 1)" using assms(3) B(1) by simp
  then have 2: "ilog2 x < e + 1" by (rule powi2_less_imp_less)
  from 1 2 show ?thesis by simp
qed

lemma ilog2_mono:
  assumes "0 < x" "x \<le> y"
  shows "ilog2 x \<le> ilog2 y"
proof -
  have y: "0 < y" using assms by simp
  have "(2::rat) powi (ilog2 x) \<le> x" by (rule ilog2_bounds[OF assms(1)])
  also have "x \<le> y" by fact
  also have "y < 2 powi (ilog2 y + 1)" by (rule ilog2_bounds[OF y])
  finally have "ilog2 x < ilog2 y + 1" by (rule powi2_less_imp_less)
  then show ?thesis by simp
qed

text \<open>The scaled significand of a positive number lies in \<open>[2^52, 2^53)\<close>.\<close>

lemma significand_bounds:
  assumes "0 < x"
  shows "2 ^ 52 \<le> x / 2 powi (ilog2 x - 52)" and "x / 2 powi (ilog2 x - 52) < 2 ^ 53"
proof -
  have s: "(0::rat) < 2 powi (ilog2 x - 52)" by simp
  have e1: "(2::rat) ^ 52 * 2 powi (ilog2 x - 52) = 2 powi (ilog2 x)"
    by (simp add: power_int_diff)
  have e2: "(2::rat) ^ 53 * 2 powi (ilog2 x - 52) = 2 powi (ilog2 x + 1)"
    by (simp add: power_int_diff power_int_add)
  show "2 ^ 52 \<le> x / 2 powi (ilog2 x - 52)"
    using ilog2_bounds(1)[OF assms] by (simp only: pos_le_divide_eq[OF s] e1)
  show "x / 2 powi (ilog2 x - 52) < 2 ^ 53"
    using ilog2_bounds(2)[OF assms] by (simp only: pos_divide_less_eq[OF s] e2)
qed

lemma float_round_pos:
  assumes "0 < x"
  shows "float_round x = of_int (round_half_even (x / 2 powi (ilog2 x - 52))) * 2 powi (ilog2 x - 52)"
  using assms by (simp add: float_round_def Let_def)

lemma float_round_zero [simp]: "float_round 0 = 0"
  by (simp add: float_round_def)

lemma float_round_neg: "float_round (- x) = - float_round x"
  by (simp add: float_round_def Let_def)

lemma float_round_pos_bounds:
  assumes "0 < x"
  shows "2 powi (ilog2 x) \<le> float_round x" and "float_round x \<le> 2 powi (ilog2 x + 1)"
proof -
  let ?s = "(2::rat) powi (ilog2 x - 52)"
  let ?t = "x / ?s"
  have "round_half_even (of_int (2 ^ 52)) \<le> round_half_even ?t"
    using significand_bounds(1)[OF assms] by (intro round_half_even_mono) simp
  then have lo: "(2::int) ^ 52 \<le> round_half_even ?t" by (simp only: round_half_even_of_int)
  have "round_half_even ?t \<le> round_half_even (of_int (2 ^ 53))"
    using significand_bounds(2)[OF assms] by (intro round_half_even_mono) simp
  then have hi: "round_half_even ?t \<le> (2::int) ^ 53" by (simp only: round_half_even_of_int)
  have e1: "(2::rat) ^ 52 * ?s = 2 powi (ilog2 x)"
    by (simp add: power_int_diff)
  have e2: "(2::rat) ^ 53 * ?s = 2 powi (ilog2 x + 1)"
    by (simp add: power_int_diff power_int_add)
  have "(of_int ((2::int) ^ 52) :: rat) \<le> of_int (round_half_even ?t)"
    using lo by (simp only: of_int_le_iff)
  then have "(2::rat) ^ 52 * ?s \<le> of_int (round_half_even ?t) * ?s"
    by (intro mult_right_mono) auto
  then show "2 powi (ilog2 x) \<le> float_round x"
    by (simp only: e1 float_round_pos[OF assms])
  have "(of_int (round_half_even ?t) :: rat) \<le> of_int ((2::int) ^ 53)"
    using hi by (simp only: of_int_le_iff)
  then have "of_int (round_half_even ?t) * ?s \<le> (2::rat) ^ 53 * ?s"
    by (intro mult_right_mono) auto
  then show "float_round x \<le> 2 powi (ilog2 x + 1)"
    by (simp only: e2 float_round_pos[OF assms])
qed

lemma float_round_pos_gt0:
  assumes "0 < x"
  shows "0 < float_round x"
proof -
  have "(0::rat) < 2 powi (ilog2 x)" by simp
  also have "\<dots> \<le> float_round x" by (rule float_round_pos_bounds(1)[OF assms])
  finally show ?thesis .
qed

lemma float_round_mono_pos:
  assumes "0 < x" "x \<le> y"
  shows "float_round x \<le> float_round y"
proof (cases "ilog2 x = ilog2 y")
  case True
  have y: "0 < y" using assms by simp
  let ?s = "(2::rat) powi (ilog2 y - 52)"
  have "x / ?s \<le> y / ?s" using assms(2) by (simp add: divide_right_mono)
  then have "round_half_even (x / ?s) \<le> round_half_even (y / ?s)" by (rule round_half_even_mono)
  then have "(of_int (round_half_even (x / ?s)) :: rat) * ?s \<le> of_int (round_half_even (y / ?s)) * ?s"
    by (intro mult_right_mono) auto
  then show ?thesis by (simp only: float_round_pos[OF assms(1)] float_round_pos[OF y] True)
next
  case False
  have y: "0 < y" using assms by simp
  from False ilog2_mono[OF assms] have "ilog2 x + 1 \<le> ilog2 y" by simp
  then have "(2::rat) powi (ilog2 x + 1) \<le> 2 powi (ilog2 y)"
    by (intro power_int_increasing) auto
  then show ?thesis
    using float_round_pos_bounds(2)[OF assms(1)] float_round_pos_bounds(1)[OF y] by linarith
qed

lemma float_round_mono:
  assumes "x \<le> y"
  shows "float_round x \<le> float_round y"
proof -
  consider "0 < x" | "x \<le> 0" "0 < y" | "x < 0" "y = 0" | "x = 0" "y = 0" | "x < 0" "y < 0"
    using assms by linarith
  then show ?thesis
  proof cases
    case 1 then show ?thesis using assms by (rule float_round_mono_pos)
  next
    case 2
    have "float_round x \<le> 0"
    proof (cases "x = 0")
      case True then show ?thesis by simp
    next
      case False
      with 2 have "0 < - x" by simp
      then have "0 < float_round (- x)" by (rule float_round_pos_gt0)
      then show ?thesis by (simp add: float_round_neg)
    qed
    moreover have "0 < float_round y" using 2 by (intro float_round_pos_gt0)
    ultimately show ?thesis by simp
  next
    case 3
    then have "0 < - x" by simp
    then have "0 < float_round (- x)" by (rule float_round_pos_gt0)
    then show ?thesis using 3 by (simp add: float_round_neg)
  next
    case 4 then show ?thesis by simp
  next
    case 5
    then have "0 < - y" "- y \<le> - x" using assms by simp_all
    then have "float_round (- y) \<le> float_round (- x)" by (rule float_round_mono_pos)
    then show ?thesis by (simp add: float_round_neg)
  qed
qed

text \<open>A number with a significand below \<open>2^53\<close> is a double: rounding leaves it alone.\<close>

lemma float_round_representable_pos:
  assumes "0 < m" "m < 2 ^ 53"
  shows "float_round (of_int m * 2 powi j) = of_int m * 2 powi j"
proof -
  let ?x = "(of_int m :: rat) * 2 powi j"
  have x: "0 < ?x" using assms by simp
  define d where "d = j - (ilog2 ?x - 52)"
  have t: "?x / 2 powi (ilog2 ?x - 52) = of_int m * 2 powi d"
    by (simp add: d_def power_int_diff)
  have "0 \<le> d"
  proof (rule ccontr)
    assume "\<not> 0 \<le> d"
    then have "d \<le> - 1" by simp
    then have "(2::rat) powi d \<le> 2 powi (- 1)" by (intro power_int_increasing) auto
    then have "(of_int m :: rat) * 2 powi d \<le> of_int m * 2 powi (- 1)"
      using assms by (intro mult_left_mono) auto
    moreover have "(of_int m :: rat) < of_int (2 ^ 53)" using assms by (simp only: of_int_less_iff)
    ultimately have "(of_int m :: rat) * 2 powi d < 2 ^ 52" by (simp add: power_int_minus)
    with significand_bounds(1)[OF x] t show False by simp
  qed
  then have "(of_int m :: rat) * 2 powi d = of_int (m * 2 ^ nat d)"
    by (simp add: power_int_def)
  then have "round_half_even (?x / 2 powi (ilog2 ?x - 52)) = m * 2 ^ nat d"
    by (simp only: t round_half_even_of_int)
  then have "float_round ?x = of_int (m * 2 ^ nat d) * 2 powi (ilog2 ?x - 52)"
    by (simp only: float_round_pos[OF x])
  also have "\<dots> = of_int m * 2 powi d * 2 powi (ilog2 ?x - 52)"
    using \<open>0 \<le> d\<close> by (simp add: power_int_def)
  also have "\<dots> = ?x" by (simp add: d_def power_int_diff)
  finally show ?thesis .
qed

lemma float_round_of_int:
  assumes "\<bar>m\<bar> < 2 ^ 53"
  shows "float_round (of_int m) = of_int m"
proof -
  consider "m = 0" | "0 < m" | "m < 0" by linarith
  then show ?thesis
  proof cases
    case 1 then show ?thesis by simp
  next
    case 2
    then show ?thesis using float_round_representable_pos[of m 0] assms by simp
  next
    case 3
    then have "float_round (of_int (- m) * 2 powi 0) = of_int (- m) * 2 powi 0"
      using assms by (intro float_round_representable_pos) auto
    then have "float_round (- of_int m) = - of_int m" by simp
    then show ?thesis by (simp only: float_round_neg neg_equal_iff_equal)
  qed
qed

lemma ad_factor: "fsub (float_of_int 1) AD_OVERWRITE_DISCOUNT = 8106479329266893 / 2 ^ 53"
  by code_simp

lemma ad_discount_exact:
  assumes "0 \<le> c" "c < 2 ^ 49"
  shows "py_int (fmul (float_of_int c) (fsub (float_of_int 1) AD_OVERWRITE_DISCOUNT)) = (9 * c) div 10"
proof -
  define g where "g = (9 * c) div 10"
  define p :: rat where "p = of_int c * (8106479329266893 / 2 ^ 53)"
  have g0: "0 \<le> g" and g1: "10 * g \<le> 9 * c" and g2: "9 * c \<le> 10 * g + 9" and g3: "g < 2 ^ 49"
    using assms by (simp_all add: g_def)
  have c53: "\<bar>c\<bar> < 2 ^ 53" using assms by simp
  have fc: "float_of_int c = of_int c"
    unfolding float_of_int_def by (rule float_round_of_int[OF c53])
  have prod: "fmul (float_of_int c) (fsub (float_of_int 1) AD_OVERWRITE_DISCOUNT) = float_round p"
    by (simp only: fmul_def fc ad_factor p_def)
  have cr0: "(0::rat) \<le> of_int c" using assms by simp
  have "(of_int c :: rat) < of_int (2 ^ 49)" using assms(2) by (simp only: of_int_less_iff)
  then have cr1: "(of_int c :: rat) < 2 ^ 49" by simp
  have "(of_int (10 * g) :: rat) \<le> of_int (9 * c)" using g1 by (simp only: of_int_le_iff)
  then have q1: "(10::rat) * of_int g \<le> 9 * of_int c" by simp
  have "(of_int (9 * c) :: rat) \<le> of_int (10 * g + 9)" using g2 by (simp only: of_int_le_iff)
  then have q2: "(9::rat) * of_int c \<le> 10 * of_int g + 9" by simp
  have pe: "p = 9 * of_int c / 10 + of_int c / (5 * 2 ^ 53)" unfolding p_def by simp
  have sm: "(of_int c :: rat) / (5 * 2 ^ 53) < 1 / 80" using cr1 by simp
  have sm0: "(0::rat) \<le> of_int c / (5 * 2 ^ 53)" using cr0 by simp
  have lo: "of_int g \<le> p" using q1 sm0 unfolding pe by linarith
  have e16: "(of_int (16 * g + 15) :: rat) * 2 powi (- 4) = of_int g + 15 / 16"
    by (simp add: power_int_minus field_simps)
  have hi: "p \<le> of_int (16 * g + 15) * 2 powi (- 4)"
    using q2 sm unfolding pe e16 by linarith
  have rg: "float_round (of_int g) = of_int g"
    using g0 g3 by (intro float_round_of_int) simp
  have rh: "float_round (of_int (16 * g + 15) * 2 powi (- 4)) = of_int (16 * g + 15) * 2 powi (- 4)"
    using g0 g3 by (intro float_round_representable_pos) simp_all
  have L: "of_int g \<le> float_round p"
    using float_round_mono[OF lo] by (simp only: rg)
  have H: "float_round p \<le> of_int (16 * g + 15) * 2 powi (- 4)"
    using float_round_mono[OF hi] by (simp only: rh)
  have H': "float_round p < of_int g + 1"
    using H unfolding e16 by linarith
  have "(0::rat) \<le> of_int g" using g0 by simp
  then have "0 \<le> float_round p" using L by linarith
  moreover have "\<lfloor>float_round p\<rfloor> = g" using L H' by (simp add: floor_unique)
  ultimately show ?thesis by (simp add: prod py_int_def g_def)
qed

lemma undo_cost_free: "calculate_undo_cost 0 undo_count = 0"
  by (simp add: calculate_undo_cost_def float_of_int_def fmul_def py_int_def)

lemma undo_cost_1000_0: "calculate_undo_cost 1000 0 = 250"
  by code_simp

lemma undo_cost_11000_1: "calculate_undo_cost 11000 1 = 3849"
  by code_simp

section \<open>The price of a placement\<close>

lemma py_int_of_int [simp]: "py_int (of_int n) = n"
  by (simp add: py_int_def)

lemma py_int_nine_tenths:
  assumes "0 \<le> c"
  shows "py_int (of_int c * (9 / 10)) = (9 * c) div 10"
proof -
  have "(of_int c :: rat) * (9 / 10) = of_int (9 * c) / of_int 10" by simp
  then have "\<lfloor>(of_int c :: rat) * (9 / 10)\<rfloor> = (9 * c) div 10"
    by (simp only: floor_divide_of_int_eq)
  moreover have "(0::rat) \<le> of_int c * (9 / 10)" using assms by simp
  ultimately show ?thesis by (simp add: py_int_def)
qed

text \<open>
  C4. The cost of a placement on a cell with escalation level \<open>L\<close> and ad flag
  \<open>A\<close> under the cap \<open>C\<close> is: 1000 plus the truncation of \<open>L \<times> 1000 / 1000\<close>;
  times 0.9 truncated toward zero when \<open>A\<close> holds; then the minimum with \<open>C\<close>.
  A missing cell counts as level 0 without ad flag. The function returns the cost only,
  it has no access to the cell other than reading it. The level is a count of
  placements, \<open>0 \<le> L < 2^48\<close>: on that range the double-precision product of the
  code agrees with the exact one.
\<close>

theorem calculate_pixel_cost_formula:
  assumes "0 \<le> cell_level s x y" and "cell_level s x y < 2 ^ 48"
  shows "calculate_pixel_cost s x y
           = spec_pixel_cost (cell_level s x y) (cell_is_ad s x y) (current_cap s)"
proof -
  define L where "L = cell_level s x y"
  define c0 where "c0 = 1000 + L"
  have c0: "0 \<le> c0" "c0 < 2 ^ 49" using assms by (simp_all add: c0_def L_def)
  have code: "calculate_pixel_cost s x y
      = min (if cell_is_ad s x y
             then py_int (fmul (float_of_int c0) (fsub (float_of_int 1) AD_OVERWRITE_DISCOUNT))
             else c0) (current_cap s)"
    by (simp add: calculate_pixel_cost_def cell_level_def cell_is_ad_def c0_def L_def
        BASE_COST_CREDITS_def COST_INCREMENT_CREDITS_def Let_def)
  have spec: "spec_pixel_cost L (cell_is_ad s x y) (current_cap s)
      = min (if cell_is_ad s x y then py_int (of_int c0 * (9 / 10)) else c0) (current_cap s)"
    by (simp add: spec_pixel_cost_def c0_def Let_def)
  show ?thesis
    unfolding code spec L_def[symmetric]
    by (simp only: ad_discount_exact[OF c0] py_int_nine_tenths[OF c0(1)])
qed

theorem calculate_pixel_cost_formula_witness:
  "0 \<le> cell_level example_state 0 0 \<and> cell_level example_state 0 0 < 2 ^ 48
   \<and> calculate_pixel_cost example_state 0 0 = 3600"
proof -
  have l: "cell_level example_state 0 0 = 3000"
    by (simp add: cell_level_def get_pixel_def example_state_def)
  have a: "cell_is_ad example_state 0 0"
    by (simp add: cell_is_ad_def get_pixel_def example_state_def)
  have h1: "0 \<le> cell_level example_state 0 0" and h2: "cell_level example_state 0 0 < 2 ^ 48"
    by (simp_all add: l)
  have "spec_pixel_cost 3000 True (current_cap example_state) = 3600"
    by (simp add: spec_pixel_cost_def example_state_def INITIAL_CAP_CREDITS_def py_int_def)
  then show ?thesis
    using calculate_pixel_cost_formula[OF h1 h2] by (simp add: l a)
qed

section \<open>Free placements\<close>

text \<open>
  C5, as stated, fails at the threshold: exactly 1800 seconds after the last placement
  the code already grants the inactivity trigger, while "exceeds 1800 seconds" does not
  hold and more than six hours of the week remain.
\<close>

theorem free_at_threshold_counterexample:
  "is_free_placement_eligible example_state 1 (seconds 88200) = (True, Some ''inactivity'')
   \<and> seconds 88200 - last_placement example_state = seconds 1800
   \<and> spec_free_placement example_state 1 (seconds 88200) = (False, None)"
  by (simp add: is_free_placement_eligible_def spec_free_placement_def example_state_def
      example_user_def seconds_def INACTIVITY_THRESHOLD_SECONDS_def FREE_ELIGIBILITY_MAX_PAID_def)

text \<open>
  C5, amended. A placement is free with reason "inactivity" exactly when the time since
  the global last placement is at least 1800 seconds and the user exists with a lifetime
  paid-placement count of at most 500; otherwise it is free with reason "end_of_week"
  exactly when less than 21600 seconds remain until the week start plus seven days and
  the same ceiling holds; otherwise it is paid. Times are in microseconds.
\<close>

theorem free_placement_rule:
  "is_free_placement_eligible s uid now =
     (if 1800 * 1000000 \<le> now - last_placement s
         \<and> (\<exists>u. users s uid = Some u \<and> lifetime_paid_placements u \<le> 500)
      then (True, Some ''inactivity'')
      else if week_start s + 604800 * 1000000 - now < 21600 * 1000000
         \<and> (\<exists>u. users s uid = Some u \<and> lifetime_paid_placements u \<le> 500)
      then (True, Some ''end_of_week'')
      else (False, None))"
  by (cases "users s uid")
     (simp_all add: is_free_placement_eligible_def seconds_def INACTIVITY_THRESHOLD_SECONDS_def
        FREE_ELIGIBILITY_MAX_PAID_def Let_def)

theorem free_placement_rule_witness:
  "is_free_placement_eligible example_state 1 (seconds 88200) = (True, Some ''inactivity'')
   \<and> is_free_placement_eligible (example_state\<lparr>last_placement := seconds 599990\<rparr>) 1 (seconds 600000)
       = (True, Some ''end_of_week'')
   \<and> is_free_placement_eligible example_state 1 (seconds 86460) = (False, None)"
proof -
  have u: "users example_state 1 = Some example_user" by (simp add: example_state_def)
  have l: "lifetime_paid_placements example_user = 0" by (simp add: example_user_def)
  have t: "last_placement example_state = 86400000000" "week_start example_state = 0"
    by (simp_all add: example_state_def seconds_def)
  show ?thesis
    using free_placement_rule[of example_state 1 "seconds 88200"]
      free_placement_rule[of "example_state\<lparr>last_placement := seconds 599990\<rparr>" 1 "seconds 600000"]
      free_placement_rule[of example_state 1 "seconds 86460"]
    by (simp add: u l t seconds_def)
qed

section \<open>Frame properties of the operations\<close>

lemma map_of_upsert_pixel:
  "map_of (upsert_pixel k v ps) k' = (if k' = k then Some v else map_of ps k')"
  by (induction ps) auto

lemma map_of_update_pixel:
  "map_of (update_pixel k f ps) k' = (if k' = k then map_option f (map_of ps k) else map_of ps k')"
  by (induction ps) auto

lemma map_of_delete_pixel:
  "map_of (delete_pixel k ps) k' = (if k' = k then None else map_of ps k')"
  by (induction ps) (auto simp: delete_pixel_def)

lemma map_of_reset_levels:
  "map_of (map (\<lambda>(k, p). (k, p\<lparr>cost_level := 0\<rparr>)) ps) k'
     = map_option (\<lambda>p. p\<lparr>cost_level := 0\<rparr>) (map_of ps k')"
  by (induction ps) auto

lemma update_dynamic_cap_frame [simp]:
  "users (update_dynamic_cap s) = users s"
  "pixels (update_dynamic_cap s) = pixels s"
  "placements (update_dynamic_cap s) = placements s"
  "reports (update_dynamic_cap s) = reports s"
  "archives (update_dynamic_cap s) = archives s"
  "week_start (update_dynamic_cap s) = week_start s"
  "last_placement (update_dynamic_cap s) = last_placement s"
  "board_frozen (update_dynamic_cap s) = board_frozen s"
  "user_last_placement (update_dynamic_cap s) = user_last_placement s"
  by (simp_all add: update_dynamic_cap_def Let_def)

lemma reset_week_frame [simp]:
  "placements (snd (check_and_reset_week s now)) = placements s"
  "reports (snd (check_and_reset_week s now)) = reports s"
  "last_placement (snd (check_and_reset_week s now)) = last_placement s"
  "user_last_placement (snd (check_and_reset_week s now)) = user_last_placement s"
  by (simp_all add: check_and_reset_week_def create_archive_snapshot_def Let_def)

lemma reset_week_users:
  "users (snd (check_and_reset_week s now)) v =
     (if seconds (7 * 86400) \<le> now - week_start s
      then map_option (\<lambda>u. u\<lparr>undo_escalation_count := 0\<rparr>) (users s v) else users s v)"
  by (simp add: check_and_reset_week_def create_archive_snapshot_def Let_def)

lemma reset_week_credits:
  "map_option credits (users (snd (check_and_reset_week s now)) v) = map_option credits (users s v)"
  by (cases "users s v") (simp_all add: reset_week_users)

lemma update_user_apply:
  "update_user uid f us v = (if v = uid then map_option f (us uid) else us v)"
  by (cases "us uid") (simp_all add: update_user_def)

text \<open>The users after the second transaction of a placement.\<close>

lemma place_pixel_commit_credits:
  assumes "users s v = Some u" "0 \<le> credits u"
  shows "\<exists>u'. users (snd (place_pixel_commit s request now)) v = Some u' \<and> 0 \<le> credits u'"
  using assms
  by (cases "users s (req_user_id request)")
     (auto simp: place_pixel_commit_def Let_def update_user_apply)

lemma place_pixel_commit_rejected:
  assumes "fst (place_pixel_commit s request now) = Inl e"
  shows "snd (place_pixel_commit s request now) = s"
  using assms
  by (cases "users s (req_user_id request)")
     (auto simp: place_pixel_commit_def Let_def split: if_splits)

lemma place_pixel_credits:
  assumes "users s v = Some u" "0 \<le> credits u"
  shows "\<exists>u'. users (snd (place_pixel s request now)) v = Some u' \<and> 0 \<le> credits u'"
proof -
  let ?s1 = "snd (check_and_reset_week s now)"
  have "\<exists>u1. users ?s1 v = Some u1 \<and> 0 \<le> credits u1"
    using assms by (simp add: reset_week_users)
  then obtain u1 where u1: "users ?s1 v = Some u1" "0 \<le> credits u1" by blast
  let ?s2 = "?s1\<lparr>user_last_placement := (user_last_placement ?s1)(req_user_id request \<mapsto> now)\<rparr>"
  have u2: "users ?s2 v = Some u1" using u1 by simp
  show ?thesis
    using u1 assms place_pixel_commit_credits[OF u2 u1(2), of request now]
    by (auto simp: place_pixel_def Let_def split: option.splits)
qed

lemma place_pixel_rejected_credits:
  assumes "fst (place_pixel s request now) = Inl e"
  shows "map_option credits (users (snd (place_pixel s request now)) v) = map_option credits (users s v)"
proof -
  let ?s1 = "snd (check_and_reset_week s now)"
  let ?s2 = "?s1\<lparr>user_last_placement := (user_last_placement ?s1)(req_user_id request \<mapsto> now)\<rparr>"
  have c: "fst (place_pixel_commit ?s2 request now) = Inl e
           \<Longrightarrow> users (snd (place_pixel_commit ?s2 request now)) = users ?s1" for e
    using place_pixel_commit_rejected[of ?s2 request now e] by simp
  show ?thesis
    using assms c reset_week_credits[of s now v]
    by (auto simp: place_pixel_def Let_def split: option.splits if_splits)
qed

lemma undo_placement_credits:
  assumes "users s v = Some u" "0 \<le> credits u"
  shows "\<exists>u'. users (snd (undo_placement s pid uid now)) v = Some u' \<and> 0 \<le> credits u'"
  using assms
  by (auto simp: undo_placement_def Let_def update_user_apply split: option.splits)

lemma undo_placement_rejected:
  assumes "fst (undo_placement s pid uid now) = Inl e"
  shows "snd (undo_placement s pid uid now) = s"
  using assms
  by (auto simp: undo_placement_def Let_def split: option.splits if_splits)

section \<open>The undo cost\<close>

lemma undo_increment_value: "UNDO_INCREMENT_PERCENT = 3602879701896397 / 2 ^ 55"
  by code_simp

lemma undo_base_value: "UNDO_BASE_PERCENT = 1 / 4"
  by code_simp

lemma float_of_int_mono: "n \<le> m \<Longrightarrow> float_of_int n \<le> float_of_int m"
  unfolding float_of_int_def by (intro float_round_mono) simp

lemma float_of_int_nonneg: "0 \<le> n \<Longrightarrow> 0 \<le> float_of_int n"
  using float_of_int_mono[of 0 n] by (simp add: float_of_int_def)

lemma undo_fraction_mono:
  assumes "n \<le> m"
  shows "undo_fraction n \<le> undo_fraction m"
proof -
  have "float_of_int n * UNDO_INCREMENT_PERCENT \<le> float_of_int m * UNDO_INCREMENT_PERCENT"
    using float_of_int_mono[OF assms] by (intro mult_right_mono) (simp_all add: undo_increment_value)
  then have "fmul (float_of_int n) UNDO_INCREMENT_PERCENT \<le> fmul (float_of_int m) UNDO_INCREMENT_PERCENT"
    unfolding fmul_def by (rule float_round_mono)
  then show ?thesis
    unfolding undo_fraction_def fadd_def by (intro float_round_mono) simp
qed

lemma py_int_mono:
  assumes "a \<le> b"
  shows "py_int a \<le> py_int b"
proof -
  have f: "\<lfloor>a\<rfloor> \<le> \<lfloor>b\<rfloor>" and c: "\<lceil>a\<rceil> \<le> \<lceil>b\<rceil>"
    using assms by (simp_all add: floor_mono ceiling_mono)
  have fc: "\<lfloor>b\<rfloor> \<le> \<lceil>b\<rceil>" by (simp add: floor_le_ceiling)
  consider "0 \<le> a" | "a < 0" "b < 0" | "a < 0" "0 \<le> b" by linarith
  then show ?thesis
  proof cases
    case 1 then show ?thesis using assms f by (simp add: py_int_def)
  next
    case 2 then show ?thesis using c by (simp add: py_int_def)
  next
    case 3
    have "\<lceil>a\<rceil> \<le> 0" using 3(1) by (simp add: ceiling_le_iff)
    moreover have "0 \<le> \<lfloor>b\<rfloor>" using 3(2) by simp
    ultimately have "\<lceil>a\<rceil> \<le> \<lfloor>b\<rfloor>" by linarith
    then show ?thesis using 3 by (simp add: py_int_def)
  qed
qed

lemma calculate_undo_cost_mono:
  assumes "0 \<le> c" "n \<le> m"
  shows "calculate_undo_cost c n \<le> calculate_undo_cost c m"
proof -
  have "float_of_int c * undo_fraction n \<le> float_of_int c * undo_fraction m"
    using undo_fraction_mono[OF assms(2)] float_of_int_nonneg[OF assms(1)]
    by (intro mult_left_mono)
  then have "fmul (float_of_int c) (undo_fraction n) \<le> fmul (float_of_int c) (undo_fraction m)"
    unfolding fmul_def by (rule float_round_mono)
  then show ?thesis unfolding calculate_undo_cost_def by (rule py_int_mono)
qed

text \<open>Below \<open>2^40\<close> undos every further undo raises the fraction strictly.\<close>

lemma undo_fraction_strict:
  assumes "0 \<le> n" "n < 2 ^ 40"
  shows "undo_fraction n < undo_fraction (n + 1)"
proof -
  define d :: rat where "d = 3602879701896397 / 2 ^ 55"
  define j where "j = \<lfloor>of_int n * d * 32\<rfloor> + 1"
  have n53: "\<bar>n\<bar> < 2 ^ 53" "\<bar>n + 1\<bar> < 2 ^ 53" using assms by simp_all
  have fn: "float_of_int n = of_int n" "float_of_int (n + 1) = of_int (n + 1)"
    unfolding float_of_int_def by (rule float_round_of_int, fact)+
  have nr0: "(0::rat) \<le> of_int n" using assms by simp
  have "(of_int n :: rat) < of_int (2 ^ 40)" using assms(2) by (simp only: of_int_less_iff)
  then have nr1: "(of_int n :: rat) < 2 ^ 40" by simp
  have d1: "1 / 16 \<le> d" and d2: "d < 1 / 8" and d0: "0 < d" by (simp_all add: d_def)
  have t0: "0 \<le> of_int n * d * 32" using nr0 d0 by simp
  have t1: "of_int n * d * 32 < 2 ^ 42"
  proof -
    have "of_int n * d * 32 \<le> of_int n * (1 / 8) * 32"
      using nr0 d2 by (intro mult_right_mono mult_left_mono) simp_all
    also have "\<dots> < 2 ^ 42" using nr1 by simp
    finally show ?thesis .
  qed
  have j0: "1 \<le> j" using t0 by (simp add: j_def)
  have "\<lfloor>of_int n * d * 32\<rfloor> < 2 ^ 42" using t1 by (simp add: floor_less_iff)
  then have j1: "j + 9 < 2 ^ 53" by (simp add: j_def)
  have lo: "of_int n * d * 32 < of_int j"
    unfolding j_def using floor_correct[of "of_int n * d * 32"] by simp
  have hi: "of_int j \<le> of_int n * d * 32 + 1"
    unfolding j_def using floor_correct[of "of_int n * d * 32"] by simp
  have r: "float_round (of_int k * 2 powi (- 5)) = of_int k * 2 powi (- 5)"
    if "0 < k" "k < 2 ^ 53" for k
    using that by (rule float_round_representable_pos)
  have p5: "(2::rat) powi (- 5) = 1 / 32" by (simp add: power_int_minus)
  have a: "fmul (float_of_int n) UNDO_INCREMENT_PERCENT \<le> of_int j * 2 powi (- 5)"
  proof -
    have "of_int n * d \<le> of_int j * 2 powi (- 5)" using lo unfolding p5 by simp
    then have "float_round (of_int n * d) \<le> float_round (of_int j * 2 powi (- 5))"
      by (rule float_round_mono)
    then show ?thesis
      using r[of j] j0 j1 by (simp add: fmul_def fn undo_increment_value d_def)
  qed
  have b: "of_int (j + 1) * 2 powi (- 5) \<le> fmul (float_of_int (n + 1)) UNDO_INCREMENT_PERCENT"
  proof -
    have "of_int (j + 1) * 2 powi (- 5) \<le> of_int (n + 1) * d"
      using hi d1 unfolding p5 by (simp add: algebra_simps)
    then have "float_round (of_int (j + 1) * 2 powi (- 5)) \<le> float_round (of_int (n + 1) * d)"
      by (rule float_round_mono)
    then show ?thesis
      using r[of "j + 1"] j0 j1 by (simp add: fmul_def fn undo_increment_value d_def)
  qed
  have A: "undo_fraction n \<le> of_int (j + 8) * 2 powi (- 5)"
  proof -
    have "1 / 4 + fmul (float_of_int n) UNDO_INCREMENT_PERCENT \<le> of_int (j + 8) * 2 powi (- 5)"
      using a unfolding p5 by simp
    then have "float_round (1 / 4 + fmul (float_of_int n) UNDO_INCREMENT_PERCENT)
                 \<le> float_round (of_int (j + 8) * 2 powi (- 5))"
      by (rule float_round_mono)
    then show ?thesis
      using r[of "j + 8"] j0 j1 by (simp add: undo_fraction_def fadd_def undo_base_value)
  qed
  have B: "of_int (j + 9) * 2 powi (- 5) \<le> undo_fraction (n + 1)"
  proof -
    have "of_int (j + 9) * 2 powi (- 5) \<le> 1 / 4 + fmul (float_of_int (n + 1)) UNDO_INCREMENT_PERCENT"
      using b unfolding p5 by simp
    then have "float_round (of_int (j + 9) * 2 powi (- 5))
                 \<le> float_round (1 / 4 + fmul (float_of_int (n + 1)) UNDO_INCREMENT_PERCENT)"
      by (rule float_round_mono)
    then show ?thesis
      using r[of "j + 9"] j0 j1 by (simp add: undo_fraction_def fadd_def undo_base_value)
  qed
  have "(of_int (j + 8) :: rat) * 2 powi (- 5) < of_int (j + 9) * 2 powi (- 5)"
    unfolding p5 by simp
  with A B show ?thesis by linarith
qed

section \<open>Undoing twice\<close>

lemma undo_marks_undone:
  assumes "undo_placement s pid uid now = (Inr r, s')"
  shows "\<exists>pl. get_placement s' pid = Some pl \<and> \<not> can_undo pl"
  using assms
  by (auto simp: undo_placement_def get_placement_def Let_def split: option.splits if_splits)

text \<open>
  C7. An undo request for a placement record that is already marked as undone is
  rejected and leaves the whole state as it was: with "Cannot undo this placement" when
  the owner asks on an unfrozen board, with the freeze or ownership rejection when one
  of those earlier checks fails. Nothing is charged, refunded or applied again.
\<close>

theorem second_undo_rejected:
  assumes "get_placement s pid = Some pl" and "\<not> can_undo pl"
  shows "undo_placement s pid uid now =
           (Inl (if board_frozen s then BoardFrozen
                 else if pl_user_id pl \<noteq> uid then NotYourPlacement
                 else CannotUndo), s)"
  using assms by (simp add: undo_placement_def)

theorem second_undo_rejected_witness:
  "get_placement (example_state\<lparr>placements := [example_placement\<lparr>can_undo := False\<rparr>]\<rparr>) 1
     = Some (example_placement\<lparr>can_undo := False\<rparr>)
   \<and> \<not> can_undo (example_placement\<lparr>can_undo := False\<rparr>)
   \<and> undo_placement (example_state\<lparr>placements := [example_placement\<lparr>can_undo := False\<rparr>]\<rparr>) 1 1
        (seconds 86410)
     = (Inl CannotUndo, example_state\<lparr>placements := [example_placement\<lparr>can_undo := False\<rparr>]\<rparr>)"
proof -
  let ?s = "example_state\<lparr>placements := [example_placement\<lparr>can_undo := False\<rparr>]\<rparr>"
  have g: "get_placement ?s 1 = Some (example_placement\<lparr>can_undo := False\<rparr>)"
    by (simp add: get_placement_def)
  have c: "\<not> can_undo (example_placement\<lparr>can_undo := False\<rparr>)" by simp
  have f: "\<not> board_frozen ?s" by (simp add: example_state_def)
  have o: "pl_user_id (example_placement\<lparr>can_undo := False\<rparr>) = 1"
    by (simp add: example_placement_def)
  show ?thesis
    using second_undo_rejected[OF g c, of 1 "seconds 86410"] g f o by simp
qed

section \<open>The operations as case distinctions\<close>

lemma place_pixel_commit_cases:
  "place_pixel_commit s request now =
     (case users s (req_user_id request) of
        None \<Rightarrow> (Inl InternalError, s)
      | Some u \<Rightarrow>
          if \<not> fst (is_free_placement_eligible s (req_user_id request) now)
             \<and> credits u < calculate_pixel_cost s (req_x request) (req_y request)
          then (Inl InsufficientCredits, s)
          else (Inr (committed_response s request now u),
                update_dynamic_cap
                  (s\<lparr>users := (users s)(req_user_id request \<mapsto> committed_user s request now u),
                     pixels := upsert_pixel (req_x request, req_y request)
                                 (committed_pixel s request now) (pixels s),
                     placements := placements s @ [committed_record s request now],
                     last_placement := sqlite_now now\<rparr>)))"
proof (cases "users s (req_user_id request)")
  case None
  then show ?thesis by (simp add: place_pixel_commit_def)
next
  case (Some u)
  have u1: "update_user (req_user_id request) f (users s) = (users s)(req_user_id request \<mapsto> f u)"
    for f using Some by (simp add: update_user_def)
  have u2: "update_user (req_user_id request) f ((users s)(req_user_id request \<mapsto> w))
              = (users s)(req_user_id request \<mapsto> f w)"
    for f w by (simp add: update_user_def)
  have u3: "(users s)(req_user_id request \<mapsto> u) = users s"
    using Some by (rule map_upd_triv)
  show ?thesis
    by (simp add: place_pixel_commit_def Let_def Some u1 u2 u3 committed_response_def
        committed_user_def committed_pixel_def committed_record_def cell_level_def cell_is_ad_def)
qed


lemma eligible_ignores_rate_limit [simp]:
  "is_free_placement_eligible (s\<lparr>user_last_placement := m\<rparr>) uid now
     = is_free_placement_eligible s uid now"
  by (simp add: is_free_placement_eligible_def)

lemma cell_ignores_rate_limit [simp]:
  "get_pixel (s\<lparr>user_last_placement := m\<rparr>) x y = get_pixel s x y"
  "cell_level (s\<lparr>user_last_placement := m\<rparr>) x y = cell_level s x y"
  "cell_is_ad (s\<lparr>user_last_placement := m\<rparr>) x y = cell_is_ad s x y"
  by (simp_all add: get_pixel_def cell_level_def cell_is_ad_def)

lemma cost_ignores_rate_limit [simp]:
  "calculate_pixel_cost (s\<lparr>user_last_placement := m\<rparr>) x y = calculate_pixel_cost s x y"
  by (simp add: calculate_pixel_cost_def)

lemma committed_ignore_rate_limit [simp]:
  "committed_response (s\<lparr>user_last_placement := m\<rparr>) request now u = committed_response s request now u"
  "committed_user (s\<lparr>user_last_placement := m\<rparr>) request now u = committed_user s request now u"
  "committed_pixel (s\<lparr>user_last_placement := m\<rparr>) request now = committed_pixel s request now"
  "committed_record (s\<lparr>user_last_placement := m\<rparr>) request now = committed_record s request now"
  by (simp_all add: committed_response_def committed_user_def committed_pixel_def
      committed_record_def Let_def)

text \<open>The whole of \<^verbatim>\<open>place_pixel\<close> as one case distinction.\<close>

lemma place_pixel_cases:
  "place_pixel s request now =
     (if board_frozen s then (Inl BoardFrozen, s)
      else
        (let s1 = snd (check_and_reset_week s now)
         in case users s1 (req_user_id request) of
              None \<Rightarrow> (Inl UserNotFound, s1)
            | Some u \<Rightarrow>
                if now - (case user_last_placement s (req_user_id request) of
                            None \<Rightarrow> 0 | Some t \<Rightarrow> t) < seconds RATE_LIMIT_SECONDS
                then (Inl RateLimited, s1)
                else if \<not> fst (is_free_placement_eligible s1 (req_user_id request) now)
                        \<and> credits u < calculate_pixel_cost s1 (req_x request) (req_y request)
                then (Inl InsufficientCredits,
                      s1\<lparr>user_last_placement :=
                           (user_last_placement s)(req_user_id request \<mapsto> now)\<rparr>)
                else (Inr (committed_response s1 request now u),
                      update_dynamic_cap
                        (s1\<lparr>user_last_placement :=
                              (user_last_placement s)(req_user_id request \<mapsto> now),
                            users := (users s1)(req_user_id request \<mapsto> committed_user s1 request now u),
                            pixels := upsert_pixel (req_x request, req_y request)
                                        (committed_pixel s1 request now) (pixels s1),
                            placements := placements s @ [committed_record s1 request now],
                            last_placement := sqlite_now now\<rparr>))))"
  by (simp add: place_pixel_def place_pixel_commit_cases Let_def split: option.splits)

lemma place_pixel_committed:
  assumes "place_pixel s request now = (Inr r, s')"
  shows "\<exists>u0. users (snd (check_and_reset_week s now)) (req_user_id request) = Some u0
      \<and> \<not> board_frozen s
      \<and> (fst (is_free_placement_eligible (snd (check_and_reset_week s now)) (req_user_id request) now)
          \<or> calculate_pixel_cost (snd (check_and_reset_week s now)) (req_x request) (req_y request)
              \<le> credits u0)
      \<and> r = committed_response (snd (check_and_reset_week s now)) request now u0
      \<and> s' = update_dynamic_cap
                ((snd (check_and_reset_week s now))
                   \<lparr>user_last_placement := (user_last_placement s)(req_user_id request \<mapsto> now),
                    users := (users (snd (check_and_reset_week s now)))
                               (req_user_id request \<mapsto>
                                  committed_user (snd (check_and_reset_week s now)) request now u0),
                    pixels := upsert_pixel (req_x request, req_y request)
                                (committed_pixel (snd (check_and_reset_week s now)) request now)
                                (pixels (snd (check_and_reset_week s now))),
                    placements := placements s @
                                [committed_record (snd (check_and_reset_week s now)) request now],
                    last_placement := sqlite_now now\<rparr>)"
proof -
  let ?s1 = "snd (check_and_reset_week s now)"
  have f: "\<not> board_frozen s" using assms by (auto simp: place_pixel_cases)
  obtain u0 where u0: "users ?s1 (req_user_id request) = Some u0"
    using assms f by (cases "users ?s1 (req_user_id request)") (simp_all add: place_pixel_cases Let_def)
  have rl: "\<not> now - (case user_last_placement s (req_user_id request) of
                            None \<Rightarrow> 0 | Some t \<Rightarrow> t) < seconds RATE_LIMIT_SECONDS"
    using assms f u0 by (auto simp: place_pixel_cases Let_def)
  have ok: "\<not> (\<not> fst (is_free_placement_eligible ?s1 (req_user_id request) now)
               \<and> credits u0 < calculate_pixel_cost ?s1 (req_x request) (req_y request))"
    using assms f u0 rl by (auto simp: place_pixel_cases Let_def)
  have eq: "place_pixel s request now =
      (Inr (committed_response ?s1 request now u0),
       update_dynamic_cap
         (?s1\<lparr>user_last_placement := (user_last_placement s)(req_user_id request \<mapsto> now),
              users := (users ?s1)(req_user_id request \<mapsto> committed_user ?s1 request now u0),
              pixels := upsert_pixel (req_x request, req_y request)
                          (committed_pixel ?s1 request now) (pixels ?s1),
              placements := placements s @ [committed_record ?s1 request now],
              last_placement := sqlite_now now\<rparr>))"
    using f u0 rl ok by (simp add: place_pixel_cases Let_def)
  from ok have "fst (is_free_placement_eligible ?s1 (req_user_id request) now)
          \<or> calculate_pixel_cost ?s1 (req_x request) (req_y request) \<le> credits u0"
    by auto
  with u0 f eq assms show ?thesis by auto
qed

text \<open>What a successful undo has checked and written.\<close>

lemma undo_placement_success:
  assumes "undo_placement s pid uid now = (Inr r, s')"
  shows "\<exists>pl u. get_placement s pid = Some pl \<and> users s uid = Some u
      \<and> \<not> board_frozen s \<and> pl_user_id pl = uid \<and> can_undo pl
      \<and> now - placed_at pl \<le> seconds UNDO_WINDOW_SECONDS
      \<and> undo_cost r = calculate_undo_cost (cost pl) (undo_escalation_count u)
      \<and> undo_cost r \<le> credits u
      \<and> undo_new_balance r = credits u - undo_cost r
      \<and> s' = s\<lparr>users := (users s)(uid \<mapsto>
                           u\<lparr>credits := credits u - undo_cost r,
                             undo_escalation_count := undo_escalation_count u + 1\<rparr>),
               pixels := (if truthy (previous_color pl)
                          then update_pixel (pl_x pl, pl_y pl)
                                 (\<lambda>p. p\<lparr>color := the (previous_color pl),
                                        owner_id := previous_owner_id pl,
                                        updated_at := sqlite_now now\<rparr>) (pixels s)
                          else delete_pixel (pl_x pl, pl_y pl) (pixels s)),
               placements := (placements s)[nat (pid - 1) := pl\<lparr>can_undo := False\<rparr>]\<rparr>"
proof -
  have f: "\<not> board_frozen s"
    using assms by (cases "board_frozen s") (simp_all add: undo_placement_def)
  obtain pl where pl: "get_placement s pid = Some pl"
    using assms f by (cases "get_placement s pid") (simp_all add: undo_placement_def)
  have o: "pl_user_id pl = uid"
    using assms f pl by (cases "pl_user_id pl = uid") (simp_all add: undo_placement_def)
  have c: "can_undo pl"
    using assms f pl o by (cases "can_undo pl") (simp_all add: undo_placement_def)
  have w: "now - placed_at pl \<le> seconds UNDO_WINDOW_SECONDS"
    using assms f pl o c
    by (cases "seconds UNDO_WINDOW_SECONDS < now - placed_at pl") (simp_all add: undo_placement_def)
  obtain u where u: "users s uid = Some u"
    using assms f pl o c w by (cases "users s uid") (simp_all add: undo_placement_def)
  have b: "calculate_undo_cost (cost pl) (undo_escalation_count u) \<le> credits u"
    using assms f pl o c w u
    by (cases "credits u < calculate_undo_cost (cost pl) (undo_escalation_count u)")
       (simp_all add: undo_placement_def Let_def)
  have uu: "update_user uid g (users s) = (users s)(uid \<mapsto> g u)" for g
    using u by (simp add: update_user_def)
  have "undo_placement s pid uid now =
     (Inr \<lparr>undo_cost = calculate_undo_cost (cost pl) (undo_escalation_count u),
           undo_new_balance = credits u - calculate_undo_cost (cost pl) (undo_escalation_count u)\<rparr>,
      s\<lparr>users := (users s)(uid \<mapsto>
                           u\<lparr>credits := credits u - calculate_undo_cost (cost pl) (undo_escalation_count u),
                             undo_escalation_count := undo_escalation_count u + 1\<rparr>),
               pixels := (if truthy (previous_color pl)
                          then update_pixel (pl_x pl, pl_y pl)
                                 (\<lambda>p. p\<lparr>color := the (previous_color pl),
                                        owner_id := previous_owner_id pl,
                                        updated_at := sqlite_now now\<rparr>) (pixels s)
                          else delete_pixel (pl_x pl, pl_y pl) (pixels s)),
               placements := (placements s)[nat (pid - 1) := pl\<lparr>can_undo := False\<rparr>]\<rparr>)"
    using f pl o c w u b by (simp add: undo_placement_def Let_def uu)
  with assms f pl o c w u b show ?thesis by auto
qed

section \<open>Balances stay non-negative\<close>

lemma place_pixel_commit_insufficient:
  assumes "users s (req_user_id request) = Some u"
    and "\<not> fst (is_free_placement_eligible s (req_user_id request) now)"
    and "credits u < calculate_pixel_cost s (req_x request) (req_y request)"
  shows "place_pixel_commit s request now = (Inl InsufficientCredits, s)"
  using assms by (simp add: place_pixel_commit_def Let_def)

lemma undo_placement_insufficient:
  assumes "\<not> board_frozen s" "get_placement s pid = Some pl" "pl_user_id pl = uid" "can_undo pl"
    and "now - placed_at pl \<le> seconds 300" "users s uid = Some u"
    and "credits u < calculate_undo_cost (cost pl) (undo_escalation_count u)"
  shows "undo_placement s pid uid now = (Inl InsufficientCredits, s)"
  using assms by (simp add: undo_placement_def Let_def UNDO_WINDOW_SECONDS_def)

lemma place_pixel_balance:
  assumes "users s v = Some u" "0 \<le> credits u"
  shows "\<exists>u'. users (snd (place_pixel s request now)) v = Some u' \<and> 0 \<le> credits u'
            \<and> (\<forall>e. fst (place_pixel s request now) = Inl e \<longrightarrow> credits u' = credits u)"
proof -
  from place_pixel_credits[OF assms, of request now]
  obtain u' where u': "users (snd (place_pixel s request now)) v = Some u'" "0 \<le> credits u'"
    by blast
  have "credits u' = credits u" if "fst (place_pixel s request now) = Inl e" for e
    using place_pixel_rejected_credits[OF that, of v] u' assms by simp
  with u' show ?thesis by blast
qed

lemma undo_placement_balance:
  assumes "users s v = Some u" "0 \<le> credits u"
  shows "\<exists>u'. users (snd (undo_placement s pid uid now)) v = Some u' \<and> 0 \<le> credits u'
            \<and> (\<forall>e. fst (undo_placement s pid uid now) = Inl e \<longrightarrow> credits u' = credits u)"
proof -
  from undo_placement_credits[OF assms, of pid uid now]
  obtain u' where u': "users (snd (undo_placement s pid uid now)) v = Some u'" "0 \<le> credits u'"
    by blast
  have "credits u' = credits u" if "fst (undo_placement s pid uid now) = Inl e" for e
    using undo_placement_rejected[OF that] u' assms by simp
  with u' show ?thesis by blast
qed

text \<open>
  C9. A user whose balance is non-negative before \<^verbatim>\<open>place_pixel\<close> or
  \<^verbatim>\<open>undo_placement\<close> has a non-negative balance afterwards, and the balance is the
  same after every rejection. A paid placement by a user whose balance is below the
  computed cost is rejected by the second transaction with "Insufficient credits" and
  nothing is written; an undo that passes the earlier checks with a balance below the
  undo cost is rejected in the same way.
\<close>

theorem credits_never_negative:
  assumes "users s v = Some u" and "0 \<le> credits u"
  shows "(\<exists>u'. users (snd (place_pixel s request now)) v = Some u' \<and> 0 \<le> credits u'
            \<and> (\<forall>e. fst (place_pixel s request now) = Inl e \<longrightarrow> credits u' = credits u))
       \<and> (v = req_user_id request
            \<and> \<not> fst (is_free_placement_eligible s v now)
            \<and> credits u < calculate_pixel_cost s (req_x request) (req_y request)
          \<longrightarrow> place_pixel_commit s request now = (Inl InsufficientCredits, s))
       \<and> (\<exists>u'. users (snd (undo_placement s pid uid now)) v = Some u' \<and> 0 \<le> credits u'
            \<and> (\<forall>e. fst (undo_placement s pid uid now) = Inl e \<longrightarrow> credits u' = credits u))
       \<and> (v = uid \<and> \<not> board_frozen s
            \<and> (\<exists>pl. get_placement s pid = Some pl \<and> pl_user_id pl = uid \<and> can_undo pl
                    \<and> now - placed_at pl \<le> seconds 300
                    \<and> credits u < calculate_undo_cost (cost pl) (undo_escalation_count u))
          \<longrightarrow> undo_placement s pid uid now = (Inl InsufficientCredits, s))"
proof (intro conjI impI)
  show "\<exists>u'. users (snd (place_pixel s request now)) v = Some u' \<and> 0 \<le> credits u'
            \<and> (\<forall>e. fst (place_pixel s request now) = Inl e \<longrightarrow> credits u' = credits u)"
    by (rule place_pixel_balance[OF assms])
next
  assume "v = req_user_id request
            \<and> \<not> fst (is_free_placement_eligible s v now)
            \<and> credits u < calculate_pixel_cost s (req_x request) (req_y request)"
  then have "users s (req_user_id request) = Some u"
      "\<not> fst (is_free_placement_eligible s (req_user_id request) now)"
      "credits u < calculate_pixel_cost s (req_x request) (req_y request)"
    using assms(1) by auto
  then show "place_pixel_commit s request now = (Inl InsufficientCredits, s)"
    by (rule place_pixel_commit_insufficient)
next
  show "\<exists>u'. users (snd (undo_placement s pid uid now)) v = Some u' \<and> 0 \<le> credits u'
            \<and> (\<forall>e. fst (undo_placement s pid uid now) = Inl e \<longrightarrow> credits u' = credits u)"
    by (rule undo_placement_balance[OF assms])
next
  assume a: "v = uid \<and> \<not> board_frozen s
            \<and> (\<exists>pl. get_placement s pid = Some pl \<and> pl_user_id pl = uid \<and> can_undo pl
                    \<and> now - placed_at pl \<le> seconds 300
                    \<and> credits u < calculate_undo_cost (cost pl) (undo_escalation_count u))"
  then obtain pl where pl: "get_placement s pid = Some pl" "pl_user_id pl = uid" "can_undo pl"
      "now - placed_at pl \<le> seconds 300"
      "credits u < calculate_undo_cost (cost pl) (undo_escalation_count u)"
    by blast
  from a have f: "\<not> board_frozen s" and v: "users s uid = Some u" using assms(1) by simp_all
  show "undo_placement s pid uid now = (Inl InsufficientCredits, s)"
    by (rule undo_placement_insufficient[OF f pl(1-4) v pl(5)])
qed

theorem credits_never_negative_witness:
  "users (example_state\<lparr>users := [1 \<mapsto> example_user\<lparr>credits := 500\<rparr>]\<rparr>) 1
     = Some (example_user\<lparr>credits := 500\<rparr>)
   \<and> (0::int) \<le> credits (example_user\<lparr>credits := 500\<rparr>)
   \<and> place_pixel_commit (example_state\<lparr>users := [1 \<mapsto> example_user\<lparr>credits := 500\<rparr>]\<rparr>)
        \<lparr>req_user_id = 1, req_x = 1, req_y = 1, req_color = ''#0000ff'', req_is_ad = False\<rparr>
        (seconds 86460)
       = (Inl InsufficientCredits, example_state\<lparr>users := [1 \<mapsto> example_user\<lparr>credits := 500\<rparr>]\<rparr>)
   \<and> (\<exists>u'. users (snd (place_pixel (example_state\<lparr>users := [1 \<mapsto> example_user\<lparr>credits := 500\<rparr>]\<rparr>)
                \<lparr>req_user_id = 1, req_x = 1, req_y = 1, req_color = ''#0000ff'', req_is_ad = False\<rparr>
                (seconds 86460))) 1 = Some u' \<and> 0 \<le> credits u')"
proof -
  let ?s = "example_state\<lparr>users := [1 \<mapsto> example_user\<lparr>credits := 500\<rparr>]\<rparr>"
  let ?r = "\<lparr>req_user_id = 1, req_x = 1, req_y = 1, req_color = ''#0000ff'', req_is_ad = False\<rparr>"
  have h1: "users ?s 1 = Some (example_user\<lparr>credits := 500\<rparr>)" by simp
  have h2: "0 \<le> credits (example_user\<lparr>credits := 500\<rparr>)" by simp
  have e: "\<not> fst (is_free_placement_eligible ?s 1 (seconds 86460))"
    by (simp add: is_free_placement_eligible_def example_state_def seconds_def
        INACTIVITY_THRESHOLD_SECONDS_def)
  have c: "calculate_pixel_cost ?s 1 1 = 1000"
    by (simp add: calculate_pixel_cost_def get_pixel_def example_state_def
        BASE_COST_CREDITS_def COST_INCREMENT_CREDITS_def INITIAL_CAP_CREDITS_def)
  show ?thesis
    using credits_never_negative[OF h1 h2, of ?r "seconds 86460" 1 1] h1 e c
    by auto
qed

section \<open>The example placements, evaluated\<close>


lemma example_undo:
  "undo_placement example_placed 1 1 (seconds 86470)
     = (Inr \<lparr>undo_cost = 250, undo_new_balance = 3750\<rparr>,
        example_placed
          \<lparr>users := [1 \<mapsto> example_user\<lparr>credits := 3750, lifetime_paid_placements := 1,
                                        undo_escalation_count := 1\<rparr>],
           pixels := pixels example_state,
           placements := [\<lparr>pl_user_id = 1, pl_x = 1, pl_y = 1, pl_color = ''#0000ff'', cost = 1000,
                        was_free = False, pl_is_ad = False, can_undo = False,
                        previous_color = None, previous_owner_id = None,
                        placed_at = seconds 86460\<rparr>]\<rparr>)"
  by (simp add: undo_placement_def example_placed_def example_state_def example_user_def
      get_placement_def seconds_def UNDO_WINDOW_SECONDS_def undo_cost_1000_0 Let_def
      update_user_def truthy_def delete_pixel_def)

lemma undo_cost_2000_0: "calculate_undo_cost 2000 0 = 500"
  by code_simp

lemma example_overwrite_place:
  "place_pixel example_state example_overwrite (seconds 86460)
     = (Inr \<lparr>resp_cost = 2000, resp_was_free = False, new_balance = 3000,
             message = ''Pixel placed'', placement_id = 1\<rparr>, example_overwritten)"
  by (simp add: place_pixel_cases example_state_def example_overwrite_def example_overwritten_def
      example_user_def check_and_reset_week_def seconds_def Let_def RATE_LIMIT_SECONDS_def
      is_free_placement_eligible_def INACTIVITY_THRESHOLD_SECONDS_def calculate_pixel_cost_def
      get_pixel_def BASE_COST_CREDITS_def COST_INCREMENT_CREDITS_def INITIAL_CAP_CREDITS_def
      committed_response_def committed_user_def committed_pixel_def committed_record_def
      cell_level_def cell_is_ad_def sqlite_now_def update_dynamic_cap_def CAP_TRIGGER_COUNT_def)

lemma example_overwrite_undo:
  "undo_placement example_overwritten 1 1 (seconds 86470)
     = (Inr \<lparr>undo_cost = 500, undo_new_balance = 2500\<rparr>, example_restored)"
  by (simp add: undo_placement_def example_overwritten_def example_restored_def example_state_def
      example_user_def get_placement_def seconds_def UNDO_WINDOW_SECONDS_def undo_cost_2000_0
      Let_def update_user_def truthy_def sqlite_now_def)


section \<open>What an undo reverses\<close>

lemma get_placement_update_same:
  assumes "get_placement s pid = Some pl"
  shows "get_placement (s\<lparr>users := us, pixels := ps,
                          placements := (placements s)[nat (pid - 1) := pl']\<rparr>) pid = Some pl'"
  using assms by (auto simp: get_placement_def split: if_splits)

lemma get_placement_update_other:
  assumes "get_placement s pid = Some pl" "i \<noteq> pid"
  shows "get_placement (s\<lparr>users := us, pixels := ps,
                          placements := (placements s)[nat (pid - 1) := pl']\<rparr>) i
           = get_placement s i"
proof -
  have "1 \<le> pid" using assms(1) by (auto simp: get_placement_def split: if_splits)
  then have "1 \<le> i \<Longrightarrow> nat (i - 1) \<noteq> nat (pid - 1)" using assms(2) by auto
  then show ?thesis by (auto simp: get_placement_def)
qed

text \<open>
  C2, as stated, fails: user 1 overwrites the cell \<open>(2, 2)\<close> (level 1000 to 2000, paid
  count 0 to 1) and undoes it; the colour and owner come back, but the level stays at 2000
  and the paid count at 1.
\<close>

theorem undo_keeps_level_counterexample:
  "place_pixel example_state example_overwrite (seconds 86460)
     = (Inr \<lparr>resp_cost = 2000, resp_was_free = False, new_balance = 3000,
             message = ''Pixel placed'', placement_id = 1\<rparr>, example_overwritten)
   \<and> undo_placement example_overwritten 1 1 (seconds 86470)
     = (Inr \<lparr>undo_cost = 500, undo_new_balance = 2500\<rparr>, example_restored)
   \<and> cell_level example_state 2 2 = 1000
   \<and> cell_level example_overwritten 2 2 = 2000
   \<and> cell_level example_restored 2 2 = 2000
   \<and> map_option lifetime_paid_placements (users example_state 1) = Some 0
   \<and> map_option lifetime_paid_placements (users example_overwritten 1) = Some 1
   \<and> map_option lifetime_paid_placements (users example_restored 1) = Some 1"
  by (simp add: example_overwrite_place example_overwrite_undo)
     (simp add: cell_level_def get_pixel_def example_state_def example_overwritten_def
        example_restored_def example_user_def)

text \<open>
  C2, amended. A successful undo of a placement whose record holds a previous colour, on
  a cell whose row still exists, sets the colour and the owner of that row to the captured
  previous colour and previous owner; the row keeps the escalation level and the ad flag
  it has at the time of the undo (the level is not decremented). A successful undo of a
  placement whose record holds no previous colour deletes the row of the cell, and with
  the row its level: the cell reads as empty, at level 0. No other cell changes. The user
  is debited the undo cost and the undo-escalation counter is incremented, while the
  lifetime paid-placement count is left as it is; the record is marked as undone and no
  other record changes.
\<close>

theorem undo_restores_cell:
  assumes "undo_placement s pid uid now = (Inr r, s')"
  shows "\<exists>pl u. get_placement s pid = Some pl \<and> users s uid = Some u
      \<and> (\<forall>p. truthy (previous_color pl) \<and> get_pixel s (pl_x pl) (pl_y pl) = Some p
            \<longrightarrow> get_pixel s' (pl_x pl) (pl_y pl)
                  = Some \<lparr>color = the (previous_color pl), cost_level = cost_level p,
                          owner_id = previous_owner_id pl, is_ad = is_ad p,
                          updated_at = sqlite_now now\<rparr>
                \<and> cell_level s' (pl_x pl) (pl_y pl) = cell_level s (pl_x pl) (pl_y pl)
                \<and> cell_is_ad s' (pl_x pl) (pl_y pl) = cell_is_ad s (pl_x pl) (pl_y pl))
      \<and> (\<not> truthy (previous_color pl)
            \<longrightarrow> get_pixel s' (pl_x pl) (pl_y pl) = None
                \<and> cell_level s' (pl_x pl) (pl_y pl) = 0)
      \<and> (\<forall>x y. (x, y) \<noteq> (pl_x pl, pl_y pl) \<longrightarrow> get_pixel s' x y = get_pixel s x y)
      \<and> users s' uid = Some (u\<lparr>credits := credits u - undo_cost r,
                                undo_escalation_count := undo_escalation_count u + 1\<rparr>)
      \<and> map_option lifetime_paid_placements (users s' uid) = Some (lifetime_paid_placements u)
      \<and> (\<forall>v. v \<noteq> uid \<longrightarrow> users s' v = users s v)
      \<and> get_placement s' pid = Some (pl\<lparr>can_undo := False\<rparr>)
      \<and> (\<forall>i. i \<noteq> pid \<longrightarrow> get_placement s' i = get_placement s i)"
proof -
  from undo_placement_success[OF assms] obtain pl u where
    pl: "get_placement s pid = Some pl" and u: "users s uid = Some u" and
    s': "s' = s\<lparr>users := (users s)(uid \<mapsto>
                           u\<lparr>credits := credits u - undo_cost r,
                             undo_escalation_count := undo_escalation_count u + 1\<rparr>),
               pixels := (if truthy (previous_color pl)
                          then update_pixel (pl_x pl, pl_y pl)
                                 (\<lambda>p. p\<lparr>color := the (previous_color pl),
                                        owner_id := previous_owner_id pl,
                                        updated_at := sqlite_now now\<rparr>) (pixels s)
                          else delete_pixel (pl_x pl, pl_y pl) (pixels s)),
               placements := (placements s)[nat (pid - 1) := pl\<lparr>can_undo := False\<rparr>]\<rparr>"
    by blast
  have px: "get_pixel s' x y =
      (if (x, y) = (pl_x pl, pl_y pl)
       then (if truthy (previous_color pl)
             then map_option (\<lambda>p. p\<lparr>color := the (previous_color pl),
                                    owner_id := previous_owner_id pl,
                                    updated_at := sqlite_now now\<rparr>)
                    (get_pixel s (pl_x pl) (pl_y pl))
             else None)
       else get_pixel s x y)" for x y
    unfolding s' by (simp add: get_pixel_def map_of_update_pixel map_of_delete_pixel)
  have c1: "get_pixel s' (pl_x pl) (pl_y pl)
              = Some \<lparr>color = the (previous_color pl), cost_level = cost_level p,
                      owner_id = previous_owner_id pl, is_ad = is_ad p,
                      updated_at = sqlite_now now\<rparr>
          \<and> cell_level s' (pl_x pl) (pl_y pl) = cell_level s (pl_x pl) (pl_y pl)
          \<and> cell_is_ad s' (pl_x pl) (pl_y pl) = cell_is_ad s (pl_x pl) (pl_y pl)"
    if "truthy (previous_color pl) \<and> get_pixel s (pl_x pl) (pl_y pl) = Some p" for p
  proof -
    have g: "get_pixel s' (pl_x pl) (pl_y pl)
              = Some \<lparr>color = the (previous_color pl), cost_level = cost_level p,
                      owner_id = previous_owner_id pl, is_ad = is_ad p,
                      updated_at = sqlite_now now\<rparr>"
      using that by (cases p) (simp add: px)
    show ?thesis using that by (simp add: g cell_level_def cell_is_ad_def)
  qed
  have c2: "\<not> truthy (previous_color pl)
            \<longrightarrow> get_pixel s' (pl_x pl) (pl_y pl) = None
                \<and> cell_level s' (pl_x pl) (pl_y pl) = 0"
    by (simp add: px cell_level_def)
  have c3: "\<forall>x y. (x, y) \<noteq> (pl_x pl, pl_y pl) \<longrightarrow> get_pixel s' x y = get_pixel s x y"
    by (simp add: px)
  have c4: "users s' uid = Some (u\<lparr>credits := credits u - undo_cost r,
                                undo_escalation_count := undo_escalation_count u + 1\<rparr>)"
    unfolding s' by simp
  have c5: "map_option lifetime_paid_placements (users s' uid) = Some (lifetime_paid_placements u)"
    by (simp add: c4)
  have c6: "\<forall>v. v \<noteq> uid \<longrightarrow> users s' v = users s v"
    unfolding s' by simp
  have c7: "get_placement s' pid = Some (pl\<lparr>can_undo := False\<rparr>)"
    unfolding s' by (rule get_placement_update_same[OF pl])
  have c8: "\<forall>i. i \<noteq> pid \<longrightarrow> get_placement s' i = get_placement s i"
    unfolding s' using get_placement_update_other[OF pl] by blast
  from pl u c1 c2 c3 c4 c5 c6 c7 c8 show ?thesis by blast
qed

theorem undo_restores_cell_witness:
  "undo_placement example_overwritten 1 1 (seconds 86470)
     = (Inr \<lparr>undo_cost = 500, undo_new_balance = 2500\<rparr>, example_restored)
   \<and> get_pixel example_overwritten 2 2
       = Some \<lparr>color = ''#0000ff'', cost_level = 2000, owner_id = Some 1,
               is_ad = False, updated_at = seconds 86460\<rparr>
   \<and> get_pixel example_restored 2 2
       = Some \<lparr>color = ''#00ff00'', cost_level = 2000, owner_id = Some 2,
               is_ad = False, updated_at = sqlite_now (seconds 86470)\<rparr>
   \<and> cell_level example_restored 2 2 = cell_level example_overwritten 2 2
   \<and> map_option can_undo (get_placement example_restored 1) = Some False
   \<and> map_option lifetime_paid_placements (users example_restored 1) = Some 1
   \<and> fst (undo_placement example_placed 1 1 (seconds 86470))
       = Inr \<lparr>undo_cost = 250, undo_new_balance = 3750\<rparr>
   \<and> get_pixel (snd (undo_placement example_placed 1 1 (seconds 86470))) 1 1 = None
   \<and> cell_level (snd (undo_placement example_placed 1 1 (seconds 86470))) 1 1 = 0"
proof -
  have pl: "get_placement example_overwritten 1 =
      Some \<lparr>pl_user_id = 1, pl_x = 2, pl_y = 2, pl_color = ''#0000ff'', cost = 2000,
            was_free = False, pl_is_ad = False, can_undo = True,
            previous_color = Some ''#00ff00'', previous_owner_id = Some 2,
            placed_at = seconds 86460\<rparr>"
    by (simp add: get_placement_def example_overwritten_def)
  have u: "users example_overwritten 1
             = Some (example_user\<lparr>credits := 3000, lifetime_paid_placements := 1\<rparr>)"
    by (simp add: example_overwritten_def)
  have px: "get_pixel example_overwritten 2 2 =
      Some \<lparr>color = ''#0000ff'', cost_level = 2000, owner_id = Some 1,
            is_ad = False, updated_at = seconds 86460\<rparr>"
    by (simp add: get_pixel_def example_overwritten_def)
  have a: "get_pixel example_restored 2 2
       = Some \<lparr>color = ''#00ff00'', cost_level = 2000, owner_id = Some 2,
               is_ad = False, updated_at = sqlite_now (seconds 86470)\<rparr>
     \<and> cell_level example_restored 2 2 = cell_level example_overwritten 2 2
     \<and> map_option can_undo (get_placement example_restored 1) = Some False
     \<and> map_option lifetime_paid_placements (users example_restored 1) = Some 1"
    using undo_restores_cell[OF example_overwrite_undo]
    by (simp add: pl u px truthy_def)
  have e: "undo_placement example_placed 1 1 (seconds 86470)
       = (fst (undo_placement example_placed 1 1 (seconds 86470)),
          snd (undo_placement example_placed 1 1 (seconds 86470)))"
    by simp
  have f: "fst (undo_placement example_placed 1 1 (seconds 86470))
       = Inr \<lparr>undo_cost = 250, undo_new_balance = 3750\<rparr>"
    by (simp add: example_undo)
  have pl2: "get_placement example_placed 1 =
      Some \<lparr>pl_user_id = 1, pl_x = 1, pl_y = 1, pl_color = ''#0000ff'', cost = 1000,
            was_free = False, pl_is_ad = False, can_undo = True,
            previous_color = None, previous_owner_id = None,
            placed_at = seconds 86460\<rparr>"
    by (simp add: get_placement_def example_placed_def)
  have b: "get_pixel (snd (undo_placement example_placed 1 1 (seconds 86470))) 1 1 = None
     \<and> cell_level (snd (undo_placement example_placed 1 1 (seconds 86470))) 1 1 = 0"
    using undo_restores_cell[OF e[unfolded f]]
    by (auto simp: pl2 truthy_def)
  from a b f px example_overwrite_undo show ?thesis by simp
qed

section \<open>The undo cost and the exact floor\<close>

lemma round_half_even_error: "\<bar>of_int (round_half_even q) - q\<bar> \<le> 1 / 2"
proof -
  have f: "of_int \<lfloor>q\<rfloor> \<le> q" "q < of_int \<lfloor>q\<rfloor> + 1" by linarith+
  show ?thesis
    using f by (auto simp: round_half_even_def Let_def abs_le_iff)
qed

text \<open>Rounding a number between 0 and \<open>B\<close> moves it by at most \<open>B / 2^53\<close>.\<close>

lemma float_round_error:
  assumes "0 \<le> x" "x \<le> B"
  shows "\<bar>float_round x - x\<bar> \<le> B / 2 ^ 53"
proof (cases "x = 0")
  case True
  then show ?thesis using assms by simp
next
  case False
  then have x: "0 < x" using assms by simp
  let ?s = "(2::rat) powi (ilog2 x - 52)"
  let ?t = "x / ?s"
  have s: "0 < ?s" by simp
  have xs: "x = ?t * ?s" by simp
  have "float_round x - x = (of_int (round_half_even ?t) - ?t) * ?s"
    by (simp add: float_round_pos[OF x] algebra_simps)
  then have "\<bar>float_round x - x\<bar> = \<bar>of_int (round_half_even ?t) - ?t\<bar> * ?s"
    by (simp add: abs_mult)
  also have "\<dots> \<le> (1 / 2) * ?s"
    using round_half_even_error[of ?t] by (intro mult_right_mono) simp_all
  also have "\<dots> = 2 powi (ilog2 x) / 2 ^ 53"
    by (simp add: power_int_diff)
  also have "\<dots> \<le> x / 2 ^ 53"
    using ilog2_bounds(1)[OF x] by (simp add: divide_right_mono)
  also have "\<dots> \<le> B / 2 ^ 53"
    using assms(2) by (simp add: divide_right_mono)
  finally show ?thesis .
qed

lemma float_round_nonneg: "0 \<le> x \<Longrightarrow> 0 \<le> float_round x"
  using float_round_mono[of 0 x] by simp

lemma spec_undo_cost_div:
  "spec_undo_cost c n = (c * (5 + 2 * n)) div 20"
proof -
  have "(of_int c :: rat) * (25 / 100 + of_int n * (10 / 100)) = of_int (c * (5 + 2 * n)) / of_int 20"
    by (simp add: field_simps)
  then show ?thesis
    unfolding spec_undo_cost_def by (simp only: floor_divide_of_int_eq)
qed

lemma abs_upper: "\<bar>a - x\<bar> \<le> e \<Longrightarrow> x \<le> b \<Longrightarrow> a \<le> b + (e::rat)"
  by linarith

lemma abs_lower: "\<bar>a - x\<bar> \<le> e \<Longrightarrow> b \<le> x \<Longrightarrow> b - e \<le> (a::rat)"
  by linarith

lemma abs_triangle: "\<bar>a - x\<bar> \<le> e1 \<Longrightarrow> \<bar>x - y\<bar> \<le> e2 \<Longrightarrow> \<bar>a - y\<bar> \<le> e1 + (e2::rat)"
  by linarith

text \<open>
  For a cost below \<open>2^24\<close> and a counter below \<open>2^20\<close> the double-precision product
  that \<^verbatim>\<open>int()\<close> truncates is within \<open>2^-9\<close> of the exact product.
\<close>

lemma undo_cost_product_error:
  assumes "0 \<le> c" "c < 2 ^ 24" "0 \<le> n" "n < 2 ^ 20"
  shows "\<exists>P::rat. 0 \<le> P \<and> calculate_undo_cost c n = \<lfloor>P\<rfloor>
             \<and> \<bar>P - of_int (c * (5 + 2 * n)) / 20\<bar> \<le> 1 / 2 ^ 9"
proof -
  define C :: rat where "C = of_int c"
  define N :: rat where "N = of_int n"
  define d :: rat where "d = 3602879701896397 / 2 ^ 55"
  define F :: rat where "F = 1 / 4 + N / 10"
  define a where "a = float_round (N * d)"
  define f where "f = float_round (1 / 4 + a)"
  define P where "P = float_round (C * f)"
  define m where "m = spec_undo_cost c n"
  have C0: "0 \<le> C" using assms(1) by (simp add: C_def)
  have "(of_int c :: rat) < of_int (2 ^ 24)" using assms(2) by (simp only: of_int_less_iff)
  then have C1: "C < 2 ^ 24" by (simp add: C_def)
  have N0: "0 \<le> N" using assms(3) by (simp add: N_def)
  have "(of_int n :: rat) < of_int (2 ^ 20)" using assms(4) by (simp only: of_int_less_iff)
  then have N1: "N < 2 ^ 20" by (simp add: N_def)
  have fc: "float_of_int c = C"
    unfolding float_of_int_def C_def using assms(1,2) by (intro float_round_of_int) simp
  have fn: "float_of_int n = N"
    unfolding float_of_int_def N_def using assms(3,4) by (intro float_round_of_int) simp
  have code: "calculate_undo_cost c n = py_int P"
    by (simp add: calculate_undo_cost_def undo_fraction_def fmul_def fadd_def fc fn
        undo_increment_value undo_base_value P_def f_def a_def d_def)
  \<comment> \<open>the product of the counter and 0.10\<close>
  have x1: "0 \<le> N * d" "N * d \<le> 2 ^ 17"
    using N0 N1 by (simp_all add: d_def)
  have ea: "\<bar>a - N * d\<bar> \<le> 1 / 2 ^ 36"
    using float_round_error[OF x1] by (simp add: a_def)
  have a0: "0 \<le> a" unfolding a_def by (rule float_round_nonneg[OF x1(1)])
  have ed: "\<bar>N * d - N / 10\<bar> \<le> 1 / 2 ^ 37"
  proof -
    have e: "N * d - N / 10 = N / (5 * 2 ^ 55)" by (simp add: d_def field_simps)
    have b0: "0 \<le> N / (5 * 2 ^ 55)" using N0 by simp
    have b1: "N / (5 * 2 ^ 55) \<le> 1 / 2 ^ 37" using N1 by simp
    show ?thesis unfolding e using b0 b1 by (simp only: abs_of_nonneg)
  qed
  \<comment> \<open>the fraction\<close>
  have x2: "0 \<le> 1 / 4 + a" "1 / 4 + a \<le> 2 ^ 18"
  proof -
    show "0 \<le> 1 / 4 + a" using a0 by simp
    have "a \<le> 2 ^ 17 + 1 / 2 ^ 36" by (rule abs_upper[OF ea x1(2)])
    also have "\<dots> \<le> 2 ^ 18 - 1 / 4" by simp
    finally show "1 / 4 + a \<le> 2 ^ 18" by simp
  qed
  have ef: "\<bar>f - (1 / 4 + a)\<bar> \<le> 1 / 2 ^ 35"
    using float_round_error[OF x2] by (simp add: f_def)
  have f0: "0 \<le> f" unfolding f_def by (rule float_round_nonneg[OF x2(1)])
  have eF: "\<bar>f - F\<bar> \<le> 1 / 2 ^ 34"
  proof -
    have "\<bar>a - N / 10\<bar> \<le> 1 / 2 ^ 36 + 1 / 2 ^ 37" by (rule abs_triangle[OF ea ed])
    then have "\<bar>(1 / 4 + a) - F\<bar> \<le> 1 / 2 ^ 36 + 1 / 2 ^ 37" by (simp add: F_def)
    from abs_triangle[OF ef this] have "\<bar>f - F\<bar> \<le> 1 / 2 ^ 35 + (1 / 2 ^ 36 + 1 / 2 ^ 37)" .
    also have "\<dots> \<le> 1 / 2 ^ 34" by simp
    finally show ?thesis .
  qed
  have F1: "F \<le> 2 ^ 17 - 1" using N1 by (simp add: F_def)
  have f1: "f \<le> 2 ^ 17"
  proof -
    have "f \<le> (2 ^ 17 - 1) + 1 / 2 ^ 34" by (rule abs_upper[OF eF F1])
    also have "\<dots> \<le> 2 ^ 17" by simp
    finally show ?thesis .
  qed
  \<comment> \<open>the product with the cost\<close>
  have x3: "0 \<le> C * f" "C * f \<le> 2 ^ 41"
  proof -
    show "0 \<le> C * f" using C0 f0 by simp
    have "C * f \<le> 2 ^ 24 * 2 ^ 17" using C0 C1 f0 f1 by (intro mult_mono) simp_all
    then show "C * f \<le> 2 ^ 41" by simp
  qed
  have eP: "\<bar>P - C * f\<bar> \<le> 1 / 2 ^ 12"
    using float_round_error[OF x3] by (simp add: P_def)
  have P0: "0 \<le> P" unfolding P_def by (rule float_round_nonneg[OF x3(1)])
  have eC: "\<bar>C * f - C * F\<bar> \<le> 1 / 2 ^ 10"
  proof -
    have "\<bar>C * f - C * F\<bar> = C * \<bar>f - F\<bar>" using C0 by (simp add: abs_mult flip: right_diff_distrib)
    also have "\<dots> \<le> 2 ^ 24 * (1 / 2 ^ 34)" using C0 C1 eF by (intro mult_mono) simp_all
    finally show ?thesis by simp
  qed
  have eE: "\<bar>P - C * F\<bar> \<le> 1 / 2 ^ 9"
  proof -
    from abs_triangle[OF eP eC] have "\<bar>P - C * F\<bar> \<le> 1 / 2 ^ 12 + 1 / 2 ^ 10" .
    also have "\<dots> \<le> 1 / 2 ^ 9" by simp
    finally show ?thesis .
  qed
  have E: "C * F = of_int (c * (5 + 2 * n)) / 20"
    by (simp add: C_def N_def F_def field_simps)
  have "calculate_undo_cost c n = \<lfloor>P\<rfloor>" using P0 by (simp add: code py_int_def)
  with P0 eE show ?thesis unfolding E by blast
qed

text \<open>So the undo cost is never above the exact floor and at most one below it.\<close>

lemma undo_cost_near_floor:
  assumes "0 \<le> c" "c < 2 ^ 24" "0 \<le> n" "n < 2 ^ 20"
  shows "spec_undo_cost c n - 1 \<le> calculate_undo_cost c n"
    and "calculate_undo_cost c n \<le> spec_undo_cost c n"
proof -
  define m where "m = spec_undo_cost c n"
  from undo_cost_product_error[OF assms] obtain P :: rat where
    P0: "0 \<le> P" and code: "calculate_undo_cost c n = \<lfloor>P\<rfloor>" and
    eE: "\<bar>P - of_int (c * (5 + 2 * n)) / 20\<bar> \<le> 1 / 2 ^ 9"
    by blast
  have m: "m = (c * (5 + 2 * n)) div 20" by (simp add: m_def spec_undo_cost_div)
  have k1: "20 * m \<le> c * (5 + 2 * n)" and k2: "c * (5 + 2 * n) \<le> 20 * m + 19"
    unfolding m by simp_all
  have "(of_int (20 * m) :: rat) \<le> of_int (c * (5 + 2 * n))" using k1 by (simp only: of_int_le_iff)
  then have E1: "(of_int m :: rat) \<le> of_int (c * (5 + 2 * n)) / 20" by simp
  have "(of_int (c * (5 + 2 * n)) :: rat) \<le> of_int (20 * m + 19)" using k2 by (simp only: of_int_le_iff)
  then have E2: "(of_int (c * (5 + 2 * n)) :: rat) / 20 \<le> of_int m + 19 / 20" by simp
  have lo: "of_int (m - 1) \<le> P"
  proof -
    have "of_int (m - 1) \<le> (of_int m :: rat) - 1 / 2 ^ 9" by simp
    also have "\<dots> \<le> P" by (rule abs_lower[OF eE E1])
    finally show ?thesis .
  qed
  have hi: "P < of_int m + 1"
  proof -
    have "P \<le> (of_int m + 19 / 20) + 1 / 2 ^ 9" by (rule abs_upper[OF eE E2])
    also have "\<dots> < of_int m + 1" by simp
    finally show ?thesis .
  qed
  have "m - 1 \<le> \<lfloor>P\<rfloor>" using lo by (simp only: le_floor_iff)
  moreover have "\<lfloor>P\<rfloor> \<le> m" using hi by (simp add: floor_le_iff)
  ultimately show "spec_undo_cost c n - 1 \<le> calculate_undo_cost c n"
    and "calculate_undo_cost c n \<le> spec_undo_cost c n"
    by (simp_all add: code m_def)
qed


lemma div20_grows:
  assumes "20 \<le> (c::int)"
  shows "k div 20 + 2 \<le> (k + 2 * c) div 20"
proof -
  have "k div 20 + 2 = (k + 40) div 20" by simp
  also have "\<dots> \<le> (k + 2 * c) div 20" using assms by (intro zdiv_mono1) simp_all
  finally show ?thesis .
qed



text \<open>
  For a cost of at least 20 every further undo is charged strictly more: the exact floor
  grows by at least 2 with the counter, the doubles lose at most 1.
\<close>

lemma undo_cost_strict:
  assumes "20 \<le> c" "c < 2 ^ 24" "0 \<le> n" "n + 1 < 2 ^ 20"
  shows "calculate_undo_cost c n < calculate_undo_cost c (n + 1)"
proof -
  have c0: "0 \<le> c" using assms(1) by simp
  have n1: "0 \<le> n + 1" "n < 2 ^ 20" using assms(3,4) by simp_all
  define k where "k = c * (5 + 2 * n)"
  have k': "c * (5 + 2 * (n + 1)) = k + 2 * c" by (simp add: k_def algebra_simps)
  have "k div 20 + 2 \<le> (k + 2 * c) div 20" using assms(1) by (rule div20_grows)
  then have grow: "spec_undo_cost c n + 2 \<le> spec_undo_cost c (n + 1)"
    by (simp only: spec_undo_cost_div k' k_def[symmetric])
  have "calculate_undo_cost c n \<le> spec_undo_cost c n"
    by (rule undo_cost_near_floor(2)[OF c0 assms(2,3) n1(2)])
  moreover have "spec_undo_cost c (n + 1) - 1 \<le> calculate_undo_cost c (n + 1)"
    by (rule undo_cost_near_floor(1)[OF c0 assms(2) n1(1) assms(4)])
  ultimately show ?thesis using grow by linarith
qed

text \<open>
  With whole exact products the doubles can undershoot: for 11000 credits and one earlier
  undo the code charges 3849 where 25\<open>%\<close> plus 10\<open>%\<close> of the cost is 3850.
\<close>

lemma undo_cost_below_floor:
  "calculate_undo_cost 11000 1 = 3849 \<and> spec_undo_cost 11000 1 = 3850"
  by (simp add: undo_cost_11000_1 spec_undo_cost_div)

section \<open>Place, then undo\<close>

lemma committed_fields [simp]:
  "resp_cost (committed_response s request now u)
     = (if fst (is_free_placement_eligible s (req_user_id request) now) then 0
        else calculate_pixel_cost s (req_x request) (req_y request))"
  "resp_was_free (committed_response s request now u)
     = fst (is_free_placement_eligible s (req_user_id request) now)"
  "placement_id (committed_response s request now u) = int (length (placements s)) + 1"
  "new_balance (committed_response s request now u)
     = credits u - (if fst (is_free_placement_eligible s (req_user_id request) now) then 0
                    else calculate_pixel_cost s (req_x request) (req_y request))"
  "cost (committed_record s request now)
     = (if fst (is_free_placement_eligible s (req_user_id request) now) then 0
        else calculate_pixel_cost s (req_x request) (req_y request))"
  "was_free (committed_record s request now)
     = fst (is_free_placement_eligible s (req_user_id request) now)"
  "pl_user_id (committed_record s request now) = req_user_id request"
  "pl_x (committed_record s request now) = req_x request"
  "pl_y (committed_record s request now) = req_y request"
  "can_undo (committed_record s request now)"
  "placed_at (committed_record s request now) = sqlite_now now"
  "previous_color (committed_record s request now)
     = map_option color (get_pixel s (req_x request) (req_y request))"
  "cost_level (committed_pixel s request now)
     = cell_level s (req_x request) (req_y request) + COST_INCREMENT_CREDITS"
  by (simp_all add: committed_response_def committed_record_def committed_pixel_def Let_def)

text \<open>The state after a committed placement, field by field.\<close>

lemma place_pixel_result:
  assumes "place_pixel s request now = (Inr r, s')"
  shows "\<exists>u0. users (snd (check_and_reset_week s now)) (req_user_id request) = Some u0
      \<and> r = committed_response (snd (check_and_reset_week s now)) request now u0
      \<and> users s' (req_user_id request)
          = Some (committed_user (snd (check_and_reset_week s now)) request now u0)
      \<and> (\<forall>v. v \<noteq> req_user_id request \<longrightarrow> users s' v = users (snd (check_and_reset_week s now)) v)
      \<and> placements s' = placements s @ [committed_record (snd (check_and_reset_week s now)) request now]
      \<and> get_placement s' (placement_id r)
          = Some (committed_record (snd (check_and_reset_week s now)) request now)
      \<and> (\<forall>x y. get_pixel s' x y =
            (if (x, y) = (req_x request, req_y request)
             then Some (committed_pixel (snd (check_and_reset_week s now)) request now)
             else get_pixel (snd (check_and_reset_week s now)) x y))
      \<and> board_frozen s' = board_frozen (snd (check_and_reset_week s now))
      \<and> week_start s' = week_start (snd (check_and_reset_week s now))"
proof -
  let ?s1 = "snd (check_and_reset_week s now)"
  from place_pixel_committed[OF assms] obtain u0 where
    u0: "users ?s1 (req_user_id request) = Some u0" and
    r: "r = committed_response ?s1 request now u0" and
    s': "s' = update_dynamic_cap
                (?s1\<lparr>user_last_placement := (user_last_placement s)(req_user_id request \<mapsto> now),
                    users := (users ?s1)(req_user_id request \<mapsto> committed_user ?s1 request now u0),
                    pixels := upsert_pixel (req_x request, req_y request)
                                (committed_pixel ?s1 request now) (pixels ?s1),
                    placements := placements s @ [committed_record ?s1 request now],
                    last_placement := sqlite_now now\<rparr>)"
    by blast
  have a: "users s' (req_user_id request) = Some (committed_user ?s1 request now u0)"
    unfolding s' by simp
  have b: "\<forall>v. v \<noteq> req_user_id request \<longrightarrow> users s' v = users ?s1 v"
    unfolding s' by simp
  have c: "placements s' = placements s @ [committed_record ?s1 request now]"
    unfolding s' by simp
  have d: "get_placement s' (placement_id r) = Some (committed_record ?s1 request now)"
    by (simp add: get_placement_def c r)
  have e: "\<forall>x y. get_pixel s' x y =
            (if (x, y) = (req_x request, req_y request)
             then Some (committed_pixel ?s1 request now)
             else get_pixel ?s1 x y)"
    unfolding s' by (simp add: get_pixel_def map_of_upsert_pixel)
  have f: "board_frozen s' = board_frozen ?s1" "week_start s' = week_start ?s1"
    unfolding s' by simp_all
  from u0 r a b c d e f show ?thesis by blast
qed

text \<open>A free placement is logged with cost 0, undoable, under the user who made it.\<close>

lemma free_placement_recorded:
  assumes "place_pixel s request now = (Inr r, s')" and "resp_was_free r"
  shows "\<exists>pl. get_placement s' (placement_id r) = Some pl \<and> cost pl = 0 \<and> was_free pl
              \<and> can_undo pl \<and> pl_user_id pl = req_user_id request
              \<and> placed_at pl = sqlite_now now \<and> resp_cost r = 0"
proof -
  let ?s0 = "snd (check_and_reset_week s now)"
  from place_pixel_result[OF assms(1)] obtain u0 where
    r: "r = committed_response ?s0 request now u0" and
    g: "get_placement s' (placement_id r) = Some (committed_record ?s0 request now)"
    by blast
  have free: "fst (is_free_placement_eligible ?s0 (req_user_id request) now)"
    using assms(2) by (simp add: r)
  show ?thesis
    using g free by (simp add: r)
qed




section \<open>The week reset\<close>

lemma sqlite_now_bounds: "sqlite_now now \<le> now \<and> now - sqlite_now now < seconds 1"
  by (simp add: sqlite_now_def seconds_def) presburger

text \<open>
  C8. When seven days or more have passed since the cycle start,
  \<^verbatim>\<open>check_and_reset_week\<close> appends one archive entry holding the snapshot of the
  board as it was, and resets the per-cycle state: every cell's escalation level becomes
  zero while its colour, owner and ad flag stay; every user's undo-escalation counter
  becomes zero while balance, lifetime paid-placement count and violation count stay; the
  cap is 200000 again; the freeze flag is cleared; the cycle start is now (at the
  one-second resolution of the store). Placements, reports and the last-placement time are
  untouched. When less than seven days have passed, nothing is mutated.
\<close>

theorem check_and_reset_week_effect:
  assumes "check_and_reset_week s now = (b, s')"
  shows "(seconds (7 * 86400) \<le> now - week_start s \<longrightarrow>
            b
          \<and> (\<exists>a. archives s' = archives s @ [a]
                 \<and> ar_week_start a = week_start s \<and> ar_week_end a = now
                 \<and> snapshot_data a
                     = map (\<lambda>(k, p). \<lparr>snap_x = fst k, snap_y = snd k, snap_color = color p,
                                       snap_owner_id = owner_id p, snap_is_ad = is_ad p\<rparr>)
                         (pixels s))
          \<and> map fst (pixels s') = map fst (pixels s)
          \<and> (\<forall>x y. get_pixel s' x y = map_option (\<lambda>p. p\<lparr>cost_level := 0\<rparr>) (get_pixel s x y))
          \<and> (\<forall>x y. cell_level s' x y = 0)
          \<and> (\<forall>v. users s' v = map_option (\<lambda>u. u\<lparr>undo_escalation_count := 0\<rparr>) (users s v))
          \<and> current_cap s' = 200000
          \<and> \<not> board_frozen s'
          \<and> week_start s' = sqlite_now now
          \<and> sqlite_now now \<le> now \<and> now - sqlite_now now < seconds 1
          \<and> placements s' = placements s \<and> reports s' = reports s
          \<and> last_placement s' = last_placement s
          \<and> user_last_placement s' = user_last_placement s)
       \<and> (now - week_start s < seconds (7 * 86400) \<longrightarrow> \<not> b \<and> s' = s)"
proof (cases "seconds (7 * 86400) \<le> now - week_start s")
  case False
  with assms show ?thesis by (simp add: check_and_reset_week_def)
next
  case True
  let ?a = "\<lparr>ar_week_start = week_start s, ar_week_end = now,
             snapshot_data = map (\<lambda>(k, p). \<lparr>snap_x = fst k, snap_y = snd k, snap_color = color p,
                                       snap_owner_id = owner_id p, snap_is_ad = is_ad p\<rparr>)
                         (pixels s),
             total_placements = length (filter (\<lambda>p. sql_text_ge_iso (placed_at p) (week_start s)
                               \<and> sql_text_lt_iso (placed_at p) now) (placements s)),
             unique_contributors = length (remdups (map pl_user_id
                  (filter (\<lambda>p. sql_text_ge_iso (placed_at p) (week_start s)
                               \<and> sql_text_lt_iso (placed_at p) now) (placements s))))\<rparr>"
  have b: "b" and s': "s' = s\<lparr>archives := archives s @ [?a],
               pixels := map (\<lambda>(k, p). (k, p\<lparr>cost_level := 0\<rparr>)) (pixels s),
               users := (\<lambda>uid. map_option (\<lambda>u. u\<lparr>undo_escalation_count := 0\<rparr>) (users s uid)),
               week_start := sqlite_now now,
               current_cap := INITIAL_CAP_CREDITS,
               board_frozen := False\<rparr>"
    using assms True by (simp_all add: check_and_reset_week_def create_archive_snapshot_def Let_def)
  have 1: "\<exists>a. archives s' = archives s @ [a]
                 \<and> ar_week_start a = week_start s \<and> ar_week_end a = now
                 \<and> snapshot_data a
                     = map (\<lambda>(k, p). \<lparr>snap_x = fst k, snap_y = snd k, snap_color = color p,
                                       snap_owner_id = owner_id p, snap_is_ad = is_ad p\<rparr>)
                         (pixels s)"
    unfolding s' by (intro exI[of _ ?a]) simp
  have 2: "map fst (pixels s') = map fst (pixels s)"
    unfolding s' by (simp add: case_prod_beta comp_def)
  have 3: "\<forall>x y. get_pixel s' x y = map_option (\<lambda>p. p\<lparr>cost_level := 0\<rparr>) (get_pixel s x y)"
    unfolding s' by (simp add: get_pixel_def map_of_reset_levels)
  have 4: "\<forall>x y. cell_level s' x y = 0"
  proof (intro allI)
    fix x y
    show "cell_level s' x y = 0"
      by (cases "get_pixel s x y") (simp_all add: cell_level_def 3)
  qed
  have 5: "\<forall>v. users s' v = map_option (\<lambda>u. u\<lparr>undo_escalation_count := 0\<rparr>) (users s v)"
    unfolding s' by simp
  have 6: "current_cap s' = 200000" "\<not> board_frozen s'" "week_start s' = sqlite_now now"
    "placements s' = placements s" "reports s' = reports s"
    "last_placement s' = last_placement s" "user_last_placement s' = user_last_placement s"
    unfolding s' by (simp_all add: INITIAL_CAP_CREDITS_def)
  from True b 1 2 3 4 5 6 sqlite_now_bounds[of now] show ?thesis by simp
qed

theorem check_and_reset_week_effect_witness:
  "check_and_reset_week example_state (seconds 604800)
     = (True, snd (check_and_reset_week example_state (seconds 604800)))
   \<and> seconds (7 * 86400) \<le> seconds 604800 - week_start example_state
   \<and> get_pixel (snd (check_and_reset_week example_state (seconds 604800))) 0 0
       = Some \<lparr>color = ''#ff0000'', cost_level = 0, owner_id = Some 2, is_ad = True, updated_at = 0\<rparr>
   \<and> users (snd (check_and_reset_week example_state (seconds 604800))) 1 = Some example_user
   \<and> week_start (snd (check_and_reset_week example_state (seconds 604800))) = seconds 604800
   \<and> check_and_reset_week example_state (seconds 604799) = (False, example_state)"
proof -
  have a: "check_and_reset_week example_state (seconds 604800)
     = (True, snd (check_and_reset_week example_state (seconds 604800)))"
    by (simp add: check_and_reset_week_def example_state_def seconds_def Let_def)
  have b: "check_and_reset_week example_state (seconds 604799)
     = (fst (check_and_reset_week example_state (seconds 604799)),
        snd (check_and_reset_week example_state (seconds 604799)))"
    by simp
  have h: "seconds (7 * 86400) \<le> seconds 604800 - week_start example_state"
    "seconds 604799 - week_start example_state < seconds (7 * 86400)"
    by (simp_all add: example_state_def seconds_def)
  have p: "get_pixel example_state 0 0
       = Some \<lparr>color = ''#ff0000'', cost_level = 3000, owner_id = Some 2, is_ad = True, updated_at = 0\<rparr>"
    by (simp add: get_pixel_def example_state_def)
  have u: "users example_state 1 = Some example_user" by (simp add: example_state_def)
  have z: "example_user\<lparr>undo_escalation_count := 0\<rparr> = example_user"
    by (simp add: example_user_def)
  have n: "sqlite_now (seconds 604800) = seconds 604800" by (simp add: sqlite_now_def seconds_def)
  let ?s' = "snd (check_and_reset_week example_state (seconds 604800))"
  from check_and_reset_week_effect[OF a] h(1)
  have A: "get_pixel ?s' 0 0 = map_option (\<lambda>p. p\<lparr>cost_level := 0\<rparr>) (get_pixel example_state 0 0)"
    "users ?s' 1 = map_option (\<lambda>u. u\<lparr>undo_escalation_count := 0\<rparr>) (users example_state 1)"
    "week_start ?s' = sqlite_now (seconds 604800)"
    by blast+
  from check_and_reset_week_effect[OF b] h(2)
  have B: "\<not> fst (check_and_reset_week example_state (seconds 604799))"
    "snd (check_and_reset_week example_state (seconds 604799)) = example_state"
    by blast+
  have C: "check_and_reset_week example_state (seconds 604799) = (False, example_state)"
    using B by (simp add: prod_eq_iff)
  show ?thesis
    using a h(1) A C by (simp add: p u z n)
qed

section \<open>Reports and the freeze\<close>

lemma place_pixel_frozen:
  "board_frozen s \<Longrightarrow> place_pixel s request now = (Inl BoardFrozen, s)"
  by (simp add: place_pixel_def)

lemma undo_placement_frozen:
  "board_frozen s \<Longrightarrow> undo_placement s pid uid now = (Inl BoardFrozen, s)"
  by (simp add: undo_placement_def)

lemma report_pixel_keeps_frozen:
  "board_frozen s \<Longrightarrow> board_frozen (snd (report_pixel s uid x y why now))"
  by (simp add: report_pixel_def Let_def split: option.splits)

lemma report_pixel_freezes:
  assumes "0 \<le> x" "x < BOARD_SIZE" "0 \<le> y" "y < BOARD_SIZE" "users s uid = Some u"
  shows "board_frozen (snd (report_pixel s uid x y why now))
           = (board_frozen s
              \<or> REPORT_FREEZE_THRESHOLD
                   \<le> count_week_reports
                        (s\<lparr>reports := reports s @
                              [\<lparr>reporter_user_id = uid, pixel_x = x, pixel_y = y, reason = why,
                                reported_at = sqlite_now now\<rparr>]\<rparr>))"
  using assms by (auto simp: report_pixel_def Let_def)

text \<open>
  C6 fails on the code. The week has started at time 0; 2499 reports were filed an hour
  later and one more is filed after two hours, so 2500 reports have been filed since the
  cycle start. \<^verbatim>\<open>count_week_reports\<close> counts none of them, because it compares the
  stored text of a same-day report with the ISO text of the week start, and the board is
  not frozen.
\<close>

theorem report_threshold_same_day:
  "report_pixel (example_state\<lparr>reports := replicate 2499 example_report\<rparr>) 1 0 0 [] (seconds 7200)
     = (Inr \<lparr>resp_board_frozen = False, report_count = 0\<rparr>,
        example_state\<lparr>reports := replicate 2499 example_report @
                         [\<lparr>reporter_user_id = 1, pixel_x = 0, pixel_y = 0, reason = [],
                           reported_at = seconds 7200\<rparr>]\<rparr>)
   \<and> \<not> board_frozen (snd (report_pixel (example_state\<lparr>reports := replicate 2499 example_report\<rparr>)
                               1 0 0 [] (seconds 7200)))
   \<and> length (filter (\<lambda>r. week_start example_state \<le> reported_at r)
               (reports (snd (report_pixel (example_state\<lparr>reports := replicate 2499 example_report\<rparr>)
                               1 0 0 [] (seconds 7200))))) = 2500"
proof -
  have e: "report_pixel (example_state\<lparr>reports := replicate 2499 example_report\<rparr>) 1 0 0 [] (seconds 7200)
     = (Inr \<lparr>resp_board_frozen = False, report_count = 0\<rparr>,
        example_state\<lparr>reports := replicate 2499 example_report @
                         [\<lparr>reporter_user_id = 1, pixel_x = 0, pixel_y = 0, reason = [],
                           reported_at = seconds 7200\<rparr>]\<rparr>)"
    by (simp add: report_pixel_def BOARD_SIZE_def example_state_def example_report_def
        count_week_reports_def sql_text_ge_iso_def day_of_def seconds_def sqlite_now_def
        REPORT_FREEZE_THRESHOLD_def Let_def)
  show ?thesis
    unfolding e by (simp add: example_state_def example_report_def seconds_def)
qed

section \<open>The escalation level of a cell\<close>

lemma no_reset:
  "now - week_start s < seconds (7 * 86400) \<Longrightarrow> check_and_reset_week s now = (False, s)"
  by (simp add: check_and_reset_week_def)

lemma place_pixel_step_level:
  assumes "now - week_start s < seconds (7 * 86400)"
  shows "week_start (snd (place_pixel s request now)) = week_start s
       \<and> cell_level (snd (place_pixel s request now)) x y
           = cell_level s x y
             + 1000 * int (case fst (place_pixel s request now) of
                             Inr r \<Rightarrow> (if req_x request = x \<and> req_y request = y then 1 else 0)
                           | Inl e \<Rightarrow> 0)"
proof (cases "fst (place_pixel s request now)")
  case (Inl e)
  have s1: "snd (check_and_reset_week s now) = s" using no_reset[OF assms] by simp
  have "week_start (snd (place_pixel s request now)) = week_start s
      \<and> pixels (snd (place_pixel s request now)) = pixels s"
    using Inl by (auto simp: place_pixel_cases s1 Let_def split: if_splits option.splits)
  then show ?thesis using Inl by (simp add: cell_level_def get_pixel_def)
next
  case (Inr r)
  then have eq: "place_pixel s request now = (Inr r, snd (place_pixel s request now))"
    by (simp add: prod_eq_iff)
  have s1: "snd (check_and_reset_week s now) = s" using no_reset[OF assms] by simp
  from place_pixel_result[OF eq] have
    px: "\<forall>x y. get_pixel (snd (place_pixel s request now)) x y =
            (if (x, y) = (req_x request, req_y request)
             then Some (committed_pixel s request now)
             else get_pixel s x y)"
    and ws: "week_start (snd (place_pixel s request now)) = week_start s"
    unfolding s1 by blast+
  have "cell_level (snd (place_pixel s request now)) x y
          = cell_level s x y + (if req_x request = x \<and> req_y request = y then 1000 else 0)"
    using px by (auto simp: cell_level_def COST_INCREMENT_CREDITS_def)
  then show ?thesis using Inr ws by simp
qed

lemma example_free_place:
  "fst (place_pixel example_overwritten example_overwrite (seconds 88300))
     = Inr \<lparr>resp_cost = 0, resp_was_free = True, new_balance = 3000,
            message = ''Pixel placed (free: inactivity)'', placement_id = 2\<rparr>"
  by (simp add: place_pixel_cases example_state_def example_overwrite_def example_overwritten_def
      example_user_def check_and_reset_week_def seconds_def Let_def RATE_LIMIT_SECONDS_def
      is_free_placement_eligible_def INACTIVITY_THRESHOLD_SECONDS_def
      FREE_ELIGIBILITY_MAX_PAID_def committed_response_def)

lemma example_free_first:
  "fst (place_pixel example_state example_overwrite (seconds 88200))
     = Inr \<lparr>resp_cost = 0, resp_was_free = True, new_balance = 5000,
            message = ''Pixel placed (free: inactivity)'', placement_id = 1\<rparr>
   \<and> cell_level (snd (place_pixel example_state example_overwrite (seconds 88200))) 2 2 = 2000"
  by (simp add: place_pixel_cases example_state_def example_overwrite_def
      example_user_def check_and_reset_week_def seconds_def Let_def RATE_LIMIT_SECONDS_def
      is_free_placement_eligible_def INACTIVITY_THRESHOLD_SECONDS_def
      FREE_ELIGIBILITY_MAX_PAID_def committed_response_def committed_pixel_def
      cell_level_def get_pixel_def COST_INCREMENT_CREDITS_def)

text \<open>
  C3, as stated, fails: a free placement (inactivity trigger) on the cell \<open>(2, 2)\<close> raises
  its level from 1000 to 2000, and a paid placement raises it by 1000 as well, not by one.
\<close>

theorem free_placement_raises_level_counterexample:
  "fst (place_pixel example_state example_overwrite (seconds 88200))
     = Inr \<lparr>resp_cost = 0, resp_was_free = True, new_balance = 5000,
            message = ''Pixel placed (free: inactivity)'', placement_id = 1\<rparr>
   \<and> cell_level example_state 2 2 = 1000
   \<and> cell_level (snd (place_pixel example_state example_overwrite (seconds 88200))) 2 2 = 2000
   \<and> place_pixel example_state example_overwrite (seconds 86460)
     = (Inr \<lparr>resp_cost = 2000, resp_was_free = False, new_balance = 3000,
             message = ''Pixel placed'', placement_id = 1\<rparr>, example_overwritten)
   \<and> cell_level example_overwritten 2 2 = 2000"
  by (simp add: example_free_first example_overwrite_place)
     (simp add: cell_level_def get_pixel_def example_state_def example_overwritten_def)

text \<open>
  C3, amended. Over any run of placement attempts during which no week reset happens,
  the stored escalation level of a cell grows by exactly 1000 for every committed
  placement on that cell, paid or free alike, and by nothing else: at the end it is the
  level at the start plus 1000 times the number of committed placements on the cell.
\<close>

theorem level_counts_placements:
  assumes "\<forall>(request, now) \<in> set attempts. now - week_start s < seconds (7 * 86400)"
  shows "cell_level (place_all s attempts) x y
           = cell_level s x y + 1000 * int (committed_on s attempts x y)"
  using assms
proof (induction attempts arbitrary: s)
  case Nil
  then show ?case by simp
next
  case (Cons a attempts)
  obtain request now where a: "a = (request, now)" by (cases a)
  let ?s' = "snd (place_pixel s request now)"
  have t: "now - week_start s < seconds (7 * 86400)" using Cons.prems a by simp
  note step = place_pixel_step_level[OF t, of request x y]
  have "\<forall>(request, now) \<in> set attempts. now - week_start ?s' < seconds (7 * 86400)"
    using Cons.prems step by auto
  from Cons.IH[OF this] step show ?case
    by (simp add: a algebra_simps)
qed

theorem level_counts_placements_witness:
  "seconds 86460 - week_start example_state < seconds (7 * 86400)
   \<and> seconds 88300 - week_start example_state < seconds (7 * 86400)
   \<and> fst (place_pixel example_state example_overwrite (seconds 86460))
       = Inr \<lparr>resp_cost = 2000, resp_was_free = False, new_balance = 3000,
              message = ''Pixel placed'', placement_id = 1\<rparr>
   \<and> fst (place_pixel example_overwritten example_overwrite (seconds 88300))
       = Inr \<lparr>resp_cost = 0, resp_was_free = True, new_balance = 3000,
              message = ''Pixel placed (free: inactivity)'', placement_id = 2\<rparr>
   \<and> committed_on example_state
        [(example_overwrite, seconds 86460), (example_overwrite, seconds 88300)] 2 2 = 2
   \<and> cell_level example_state 2 2 = 1000
   \<and> cell_level (place_all example_state
        [(example_overwrite, seconds 86460), (example_overwrite, seconds 88300)]) 2 2 = 3000"
proof -
  have w: "week_start example_state = 0" by (simp add: example_state_def)
  have h: "\<forall>(request, now) \<in> set [(example_overwrite, seconds 86460), (example_overwrite, seconds 88300)].
             now - week_start example_state < seconds (7 * 86400)"
    by (simp add: w seconds_def)
  have q: "req_x example_overwrite = 2" "req_y example_overwrite = 2"
    by (simp_all add: example_overwrite_def)
  have c: "committed_on example_state
        [(example_overwrite, seconds 86460), (example_overwrite, seconds 88300)] 2 2 = 2"
    by (simp add: example_overwrite_place example_free_place q)
  have l: "cell_level example_state 2 2 = 1000"
    by (simp add: cell_level_def get_pixel_def example_state_def)
  have t: "seconds 86460 - week_start example_state < seconds (7 * 86400)"
    "seconds 88300 - week_start example_state < seconds (7 * 86400)"
    by (simp_all add: w seconds_def)
  have e: "fst (place_pixel example_state example_overwrite (seconds 86460))
       = Inr \<lparr>resp_cost = 2000, resp_was_free = False, new_balance = 3000,
              message = ''Pixel placed'', placement_id = 1\<rparr>"
    by (simp add: example_overwrite_place)
  have r: "cell_level (place_all example_state
        [(example_overwrite, seconds 86460), (example_overwrite, seconds 88300)]) 2 2 = 3000"
    using level_counts_placements[OF h, of 2 2] by (simp only: c l)
  from t e example_free_place c l r show ?thesis by blast
qed


section \<open>Undoing a free placement\<close>

lemma undo_cost_1000_1: "calculate_undo_cost 1000 1 = 350"
  by code_simp

lemma example_free_undo:
  "undo_placement example_two_records 1 1 (seconds 86500)
     = (Inr \<lparr>undo_cost = 0, undo_new_balance = 4000\<rparr>, example_free_undone)"
  by (simp add: undo_placement_def example_two_records_def example_free_undone_def
      example_state_def example_user_def example_placement_def example_paid_placement_def
      get_placement_def seconds_def UNDO_WINDOW_SECONDS_def undo_cost_free Let_def
      update_user_def truthy_def delete_pixel_def)

lemma example_later_undo:
  "fst (undo_placement example_free_undone 2 1 (seconds 86510))
     = Inr \<lparr>undo_cost = 350, undo_new_balance = 3650\<rparr>"
  by (simp add: undo_placement_def example_two_records_def example_free_undone_def
      example_state_def example_user_def example_placement_def example_paid_placement_def
      get_placement_def seconds_def UNDO_WINDOW_SECONDS_def undo_cost_1000_1 Let_def
      update_user_def truthy_def delete_pixel_def)

lemma example_direct_undo:
  "fst (undo_placement example_two_records 2 1 (seconds 86510))
     = Inr \<lparr>undo_cost = 250, undo_new_balance = 3750\<rparr>"
  by (simp add: undo_placement_def example_two_records_def
      example_state_def example_user_def example_placement_def example_paid_placement_def
      get_placement_def seconds_def UNDO_WINDOW_SECONDS_def undo_cost_1000_0 Let_def
      update_user_def truthy_def delete_pixel_def)

text \<open>
  C10. A placement recorded with cost 0, undone by its owner within the window on an
  unfrozen board, succeeds for every balance from 0 upwards, charges exactly 0, leaves the
  balance as it was and increments the user's undo-escalation counter by one. Every later
  successful undo of that user is the undo of another record and is priced with the raised
  counter: it charges the undo cost of that record at the counter plus one, which is
  strictly more than the same record would have cost at the old counter (for an original
  cost from 20 to below \<open>2^24\<close> and a counter below \<open>2^20 - 1\<close>). For every cost the
  charge at the raised counter is at least the charge at the old one, and the fraction
  grows strictly (for a counter below \<open>2^40\<close>, where consecutive integers times 0.10 are
  distinct doubles).
\<close>

theorem undo_free_placement:
  assumes "\<not> board_frozen s"
    and "get_placement s pid = Some pl"
    and "pl_user_id pl = uid"
    and "can_undo pl"
    and "cost pl = 0"
    and "now - placed_at pl \<le> seconds 300"
    and "users s uid = Some u"
    and "0 \<le> credits u"
  shows "fst (undo_placement s pid uid now) = Inr \<lparr>undo_cost = 0, undo_new_balance = credits u\<rparr>
       \<and> users (snd (undo_placement s pid uid now)) uid
           = Some (u\<lparr>undo_escalation_count := undo_escalation_count u + 1\<rparr>)
       \<and> (\<forall>c. 0 \<le> c \<longrightarrow> calculate_undo_cost c (undo_escalation_count u)
                           \<le> calculate_undo_cost c (undo_escalation_count u + 1))
       \<and> (0 \<le> undo_escalation_count u \<and> undo_escalation_count u < 2 ^ 40
            \<longrightarrow> undo_fraction (undo_escalation_count u)
                  < undo_fraction (undo_escalation_count u + 1))
       \<and> (\<forall>pid2 now2 r2 s2.
             undo_placement (snd (undo_placement s pid uid now)) pid2 uid now2 = (Inr r2, s2)
             \<longrightarrow> (\<exists>pl2. get_placement s pid2 = Some pl2 \<and> pid2 \<noteq> pid
                    \<and> undo_cost r2
                        = calculate_undo_cost (cost pl2) (undo_escalation_count u + 1)
                    \<and> (20 \<le> cost pl2 \<and> cost pl2 < 2 ^ 24
                         \<and> 0 \<le> undo_escalation_count u \<and> undo_escalation_count u + 1 < 2 ^ 20
                        \<longrightarrow> calculate_undo_cost (cost pl2) (undo_escalation_count u)
                              < undo_cost r2)))"
proof -
  have 1: "fst (undo_placement s pid uid now) = Inr \<lparr>undo_cost = 0, undo_new_balance = credits u\<rparr>"
    using assms by (simp add: undo_placement_def undo_cost_free UNDO_WINDOW_SECONDS_def)
  have 2: "users (snd (undo_placement s pid uid now)) uid
             = Some (u\<lparr>undo_escalation_count := undo_escalation_count u + 1\<rparr>)"
    using assms
    by (simp add: undo_placement_def undo_cost_free UNDO_WINDOW_SECONDS_def update_user_apply)
  have 3: "\<forall>c. 0 \<le> c \<longrightarrow> calculate_undo_cost c (undo_escalation_count u)
                           \<le> calculate_undo_cost c (undo_escalation_count u + 1)"
    by (simp add: calculate_undo_cost_mono)
  have 4: "0 \<le> undo_escalation_count u \<and> undo_escalation_count u < 2 ^ 40
            \<longrightarrow> undo_fraction (undo_escalation_count u) < undo_fraction (undo_escalation_count u + 1)"
    by (simp add: undo_fraction_strict)
  have 5: "\<exists>pl2. get_placement s pid2 = Some pl2 \<and> pid2 \<noteq> pid
              \<and> undo_cost r2 = calculate_undo_cost (cost pl2) (undo_escalation_count u + 1)
              \<and> (20 \<le> cost pl2 \<and> cost pl2 < 2 ^ 24
                   \<and> 0 \<le> undo_escalation_count u \<and> undo_escalation_count u + 1 < 2 ^ 20
                  \<longrightarrow> calculate_undo_cost (cost pl2) (undo_escalation_count u) < undo_cost r2)"
    if a: "undo_placement (snd (undo_placement s pid uid now)) pid2 uid now2 = (Inr r2, s2)"
    for pid2 now2 r2 s2
  proof -
    define s' where "s' = snd (undo_placement s pid uid now)"
    have e: "undo_placement s pid uid now
               = (Inr \<lparr>undo_cost = 0, undo_new_balance = credits u\<rparr>, s')"
      using 1 by (simp add: s'_def prod_eq_iff)
    from undo_placement_success[OF e] assms(2) obtain us ps where
      s': "s' = s\<lparr>users := us, pixels := ps,
                  placements := (placements s)[nat (pid - 1) := pl\<lparr>can_undo := False\<rparr>]\<rparr>"
      by auto
    have a': "undo_placement s' pid2 uid now2 = (Inr r2, s2)"
      using a by (simp add: s'_def)
    from undo_placement_success[OF a'] obtain pl2 u2 where
      p2: "get_placement s' pid2 = Some pl2" and u2: "users s' uid = Some u2" and
      c2: "can_undo pl2" and
      k2: "undo_cost r2 = calculate_undo_cost (cost pl2) (undo_escalation_count u2)"
      by blast
    have n2: "undo_escalation_count u2 = undo_escalation_count u + 1"
      using 2 u2 by (auto simp: s'_def)
    have ne: "pid2 \<noteq> pid"
    proof
      assume "pid2 = pid"
      then have "get_placement s' pid2 = Some (pl\<lparr>can_undo := False\<rparr>)"
        unfolding s' using get_placement_update_same[OF assms(2)] by simp
      with p2 c2 show False by auto
    qed
    have g: "get_placement s pid2 = Some pl2"
      using get_placement_update_other[OF assms(2) ne] p2 unfolding s' by simp
    have k: "undo_cost r2 = calculate_undo_cost (cost pl2) (undo_escalation_count u + 1)"
      using k2 n2 by simp
    have st: "20 \<le> cost pl2 \<and> cost pl2 < 2 ^ 24
                \<and> 0 \<le> undo_escalation_count u \<and> undo_escalation_count u + 1 < 2 ^ 20
              \<longrightarrow> calculate_undo_cost (cost pl2) (undo_escalation_count u) < undo_cost r2"
      unfolding k using undo_cost_strict by blast
    from g ne k st show ?thesis by blast
  qed
  from 1 2 3 4 5 show ?thesis by blast
qed

theorem undo_free_placement_witness:
  "\<not> board_frozen (example_state\<lparr>users := [1 \<mapsto> example_user\<lparr>credits := 0\<rparr>],
                                   placements := [example_placement]\<rparr>)
   \<and> get_placement (example_state\<lparr>users := [1 \<mapsto> example_user\<lparr>credits := 0\<rparr>],
                                   placements := [example_placement]\<rparr>) 1 = Some example_placement
   \<and> pl_user_id example_placement = 1 \<and> can_undo example_placement \<and> cost example_placement = 0
   \<and> seconds 86700 - placed_at example_placement \<le> seconds 300
   \<and> (0::int) \<le> credits (example_user\<lparr>credits := 0\<rparr>)
   \<and> fst (undo_placement (example_state\<lparr>users := [1 \<mapsto> example_user\<lparr>credits := 0\<rparr>],
                                          placements := [example_placement]\<rparr>) 1 1 (seconds 86700))
       = Inr \<lparr>undo_cost = 0, undo_new_balance = 0\<rparr>
   \<and> users (snd (undo_placement (example_state\<lparr>users := [1 \<mapsto> example_user\<lparr>credits := 0\<rparr>],
                                          placements := [example_placement]\<rparr>) 1 1 (seconds 86700))) 1
       = Some \<lparr>credits = 0, lifetime_paid_placements = 0, undo_escalation_count = 1,
               ad_violation_count = 0\<rparr>
   \<and> undo_fraction 0 < undo_fraction 1
   \<and> get_placement example_two_records 1 = Some example_placement
   \<and> get_placement example_two_records 2 = Some example_paid_placement
   \<and> seconds 86500 - placed_at example_placement \<le> seconds 300
   \<and> fst (undo_placement example_two_records 1 1 (seconds 86500))
       = Inr \<lparr>undo_cost = 0, undo_new_balance = 4000\<rparr>
   \<and> fst (undo_placement (snd (undo_placement example_two_records 1 1 (seconds 86500)))
            2 1 (seconds 86510))
       = Inr \<lparr>undo_cost = 350, undo_new_balance = 3650\<rparr>
   \<and> fst (undo_placement example_two_records 2 1 (seconds 86510))
       = Inr \<lparr>undo_cost = 250, undo_new_balance = 3750\<rparr>
   \<and> calculate_undo_cost 1000 0 = 250
   \<and> calculate_undo_cost 1000 1 = 350
   \<and> calculate_undo_cost (cost example_paid_placement) 0 < 350"
proof -
  let ?s = "example_state\<lparr>users := [1 \<mapsto> example_user\<lparr>credits := 0\<rparr>],
                          placements := [example_placement]\<rparr>"
  have h1: "\<not> board_frozen ?s" by (simp add: example_state_def)
  have h2: "get_placement ?s 1 = Some example_placement" by (simp add: get_placement_def)
  have h3: "pl_user_id example_placement = 1" by (simp add: example_placement_def)
  have h4: "can_undo example_placement" by (simp add: example_placement_def)
  have h5: "cost example_placement = 0" by (simp add: example_placement_def)
  have h6: "seconds 86700 - placed_at example_placement \<le> seconds 300"
    by (simp add: example_placement_def seconds_def)
  have h7: "users ?s 1 = Some (example_user\<lparr>credits := 0\<rparr>)" by simp
  have h8: "0 \<le> credits (example_user\<lparr>credits := 0\<rparr>)" by simp
  have n: "undo_escalation_count (example_user\<lparr>credits := 0\<rparr>) = 0" by (simp add: example_user_def)
  have A: "fst (undo_placement ?s 1 1 (seconds 86700)) = Inr \<lparr>undo_cost = 0, undo_new_balance = 0\<rparr>
      \<and> users (snd (undo_placement ?s 1 1 (seconds 86700))) 1
          = Some \<lparr>credits = 0, lifetime_paid_placements = 0, undo_escalation_count = 1,
                  ad_violation_count = 0\<rparr>
      \<and> undo_fraction 0 < undo_fraction 1"
    using undo_free_placement[OF h1 h2 h3 h4 h5 h6 h7 h8]
    by (simp add: n example_user_def)
  let ?u = "example_user\<lparr>credits := 4000, lifetime_paid_placements := 1\<rparr>"
  have k1: "\<not> board_frozen example_two_records"
    by (simp add: example_two_records_def example_state_def)
  have k2: "get_placement example_two_records 1 = Some example_placement"
    by (simp add: get_placement_def example_two_records_def)
  have k2': "get_placement example_two_records 2 = Some example_paid_placement"
    by (simp add: get_placement_def example_two_records_def)
  have k6: "seconds 86500 - placed_at example_placement \<le> seconds 300"
    by (simp add: example_placement_def seconds_def)
  have k7: "users example_two_records 1 = Some ?u"
    by (simp add: example_two_records_def)
  have k8: "0 \<le> credits ?u" by simp
  have m: "undo_escalation_count ?u = 0" "credits ?u = 4000" by (simp_all add: example_user_def)
  have c: "cost example_paid_placement = 1000" by (simp add: example_paid_placement_def)
  have sn: "snd (undo_placement example_two_records 1 1 (seconds 86500)) = example_free_undone"
    by (simp add: example_free_undo)
  have e: "undo_placement example_free_undone 2 1 (seconds 86510)
             = (Inr \<lparr>undo_cost = 350, undo_new_balance = 3650\<rparr>,
                snd (undo_placement example_free_undone 2 1 (seconds 86510)))"
    using example_later_undo by (simp add: prod_eq_iff)
  note t = undo_free_placement[OF k1 k2 h3 h4 h5 k6 k7 k8]
  have t1: "fst (undo_placement example_two_records 1 1 (seconds 86500))
       = Inr \<lparr>undo_cost = 0, undo_new_balance = 4000\<rparr>"
    using t by (simp add: m)
  have t5: "\<exists>pl2. get_placement example_two_records 2 = Some pl2 \<and> (2::int) \<noteq> 1
              \<and> undo_cost \<lparr>undo_cost = 350, undo_new_balance = 3650\<rparr>
                  = calculate_undo_cost (cost pl2) (undo_escalation_count ?u + 1)
              \<and> (20 \<le> cost pl2 \<and> cost pl2 < 2 ^ 24
                   \<and> 0 \<le> undo_escalation_count ?u \<and> undo_escalation_count ?u + 1 < 2 ^ 20
                  \<longrightarrow> calculate_undo_cost (cost pl2) (undo_escalation_count ?u)
                        < undo_cost \<lparr>undo_cost = 350, undo_new_balance = 3650\<rparr>)"
    using t e unfolding sn by blast
  have B: "calculate_undo_cost (cost example_paid_placement) 0 < 350"
    using t5 by (simp add: k2' m c)
  from A B h1 h2 h3 h4 h5 h6 h8 k2 k2' k6 t1 example_later_undo example_direct_undo
  show ?thesis
    by (simp add: sn undo_cost_1000_0 undo_cost_1000_1)
qed

end
